theory Spec2Isabelle
  imports
    Main
    "HOL-Library.AList"
    "HOL-Library.Multiset"
    "HOL-Library.Char_ord"
    "HOL-Library.List_Lexorder"
    "HOL-Library.Product_Lexorder"
begin

section \<open>Data model\<close>

text \<open>
  The service keeps two MongoDB collections, \<^verbatim>\<open>bio_profiles\<close> and \<^verbatim>\<open>social_links\<close>.
  A document is a Python dictionary; it is modelled as an association list, which keeps
  the insertion order of the keys as a Python dictionary does. The values the code
  stores are strings, integers, object identities and timestamps; \<open>VNone\<close> is Python's
  \<^verbatim>\<open>None\<close>, which appears in the dictionary of a partial update.
\<close>

type_synonym oid = nat

type_synonym datetime = int

datatype pyval =
    VNone
  | VStr string
  | VInt int
  | VObjectId oid
  | VDatetime datetime

type_synonym doc = "(string \<times> pyval) list"

text \<open>
  Exceptions are values. \<open>HTTPException\<close> is what the handlers raise; \<open>KeyError\<close> is
  what \<^verbatim>\<open>profile["_id"]\<close> raises on a dictionary without that key; \<open>OverflowError\<close>
  is what the driver raises when it is given an integer that does not fit the 64-bit
  integer of the store. No handler catches the last two.
\<close>

datatype error =
    HTTPException (status_code: nat) (detail: string)
  | KeyError string
  | OverflowError

text \<open>
  The state the handlers work on: the two collections, each in natural (insertion)
  order, and the supply of identities: \<open>next_oid\<close> is the identity the next stored
  document gets as its \<^verbatim>\<open>_id\<close>. Identities are opaque, so they are numbered in the
  order in which documents are stored.
\<close>

record database =
  bio_profiles :: "doc list"
  social_links :: "doc list"
  next_oid :: oid

subsection \<open>Request models\<close>

record BioProfileCreate =
  name :: string
  description :: string
  profile_image :: string

record SocialLinkCreate =
  title :: string
  url :: string
  icon_type :: string
  order :: int

record SocialLinkUpdate =
  title_opt :: "string option"
  url_opt :: "string option"
  icon_type_opt :: "string option"
  order_opt :: "int option"

text \<open>The method \<^verbatim>\<open>.dict()\<close> of each model: the fields in declaration order.\<close>

definition BioProfileCreate_dict :: "BioProfileCreate \<Rightarrow> doc" where
  "BioProfileCreate_dict p =
     [(''name'', VStr (name p)),
      (''description'', VStr (description p)),
      (''profile_image'', VStr (profile_image p))]"

definition SocialLinkCreate_dict :: "SocialLinkCreate \<Rightarrow> doc" where
  "SocialLinkCreate_dict l =
     [(''title'', VStr (title l)),
      (''url'', VStr (url l)),
      (''icon_type'', VStr (icon_type l)),
      (''order'', VInt (order l))]"

definition opt_str :: "string option \<Rightarrow> pyval" where
  "opt_str x = (case x of None \<Rightarrow> VNone | Some s \<Rightarrow> VStr s)"

definition opt_int :: "int option \<Rightarrow> pyval" where
  "opt_int x = (case x of None \<Rightarrow> VNone | Some i \<Rightarrow> VInt i)"

definition SocialLinkUpdate_dict :: "SocialLinkUpdate \<Rightarrow> doc" where
  "SocialLinkUpdate_dict l =
     [(''title'', opt_str (title_opt l)),
      (''url'', opt_str (url_opt l)),
      (''icon_type'', opt_str (icon_type_opt l)),
      (''order'', opt_int (order_opt l))]"

section \<open>Collection primitives\<close>

text \<open>
  \<open>truthy\<close> is Python's truth value of what \<^verbatim>\<open>find_one\<close> returns: \<^verbatim>\<open>None\<close> and the
  empty dictionary are false.
\<close>

definition truthy :: "doc option \<Rightarrow> bool" where
  "truthy r = (case r of None \<Rightarrow> False | Some d \<Rightarrow> d \<noteq> [])"

definition count_documents :: "doc list \<Rightarrow> nat" where
  "count_documents ds = length ds"

text \<open>\<^verbatim>\<open>find_one()\<close> without a filter: the first document in natural order.\<close>

definition find_first :: "doc list \<Rightarrow> doc option" where
  "find_first ds = (case ds of [] \<Rightarrow> None | d # _ \<Rightarrow> Some d)"

text \<open>The filter \<^verbatim>\<open>{"_id": v}\<close>.\<close>

definition matches_id :: "pyval \<Rightarrow> doc \<Rightarrow> bool" where
  "matches_id v d = (map_of d ''_id'' = Some v)"

definition find_one :: "pyval \<Rightarrow> doc list \<Rightarrow> doc option" where
  "find_one v ds = find (matches_id v) ds"

text \<open>
  The update operator \<^verbatim>\<open>$set\<close>: every field of the update document is written into
  the target, replacing the value of a key that is there and appending a new key.
\<close>

fun dollar_set :: "doc \<Rightarrow> doc \<Rightarrow> doc" where
  "dollar_set [] d = d"
| "dollar_set ((k, v) # kvs) d = dollar_set kvs (AList.update k v d)"

text \<open>\<^verbatim>\<open>update_one\<close> changes the first document that matches the filter.\<close>

fun update_one :: "pyval \<Rightarrow> doc \<Rightarrow> doc list \<Rightarrow> doc list" where
  "update_one v upd [] = []"
| "update_one v upd (d # ds) =
     (if matches_id v d then dollar_set upd d # ds else d # update_one v upd ds)"

text \<open>
  \<^verbatim>\<open>delete_one\<close> removes the first document that matches; the second component is
  \<^verbatim>\<open>deleted_count\<close>.
\<close>

fun delete_one :: "pyval \<Rightarrow> doc list \<Rightarrow> doc list \<times> nat" where
  "delete_one v [] = ([], 0)"
| "delete_one v (d # ds) =
     (if matches_id v d then (ds, 1)
      else (case delete_one v ds of (ds', n) \<Rightarrow> (d # ds', n)))"

text \<open>
  \<^verbatim>\<open>insert_one\<close> on a document without \<^verbatim>\<open>_id\<close> (the code never supplies one): the
  driver generates the identity, the stored document carries it as its first field, and
  the result is \<^verbatim>\<open>inserted_id\<close>. A collection is paired with the generator's counter.
\<close>

definition insert_one :: "doc \<Rightarrow> doc list \<times> oid \<Rightarrow> (doc list \<times> oid) \<times> oid" where
  "insert_one d s =
     (case s of (coll, n) \<Rightarrow> ((coll @ [(''_id'', VObjectId n) # d], Suc n), n))"

fun insert_many :: "doc list \<Rightarrow> doc list \<times> oid \<Rightarrow> doc list \<times> oid" where
  "insert_many [] s = s"
| "insert_many (d # ds) s = insert_many ds (fst (insert_one d s))"

text \<open>
  What the driver can encode. An integer of a document is stored as a signed 64-bit
  integer; Python's integers are unbounded, and on one outside that range the driver
  raises \<^verbatim>\<open>OverflowError\<close> before anything is sent to the store. Strings, identities
  and timestamps are always encoded. The documents of \<^verbatim>\<open>init_default_data\<close> and the
  update document of \<^verbatim>\<open>update_profile\<close> hold no integer from a request, so only
  \<^verbatim>\<open>create_link\<close> and \<^verbatim>\<open>update_link\<close> can meet this error.
\<close>

definition int64 :: "int \<Rightarrow> bool" where
  "int64 i \<longleftrightarrow> - (2 ^ 63) \<le> i \<and> i < 2 ^ 63"

fun encodable :: "pyval \<Rightarrow> bool" where
  "encodable (VInt i) = int64 i"
| "encodable v = True"

definition bson_encodable :: "doc \<Rightarrow> bool" where
  "bson_encodable d = list_all (\<lambda>(k, v). encodable v) d"

text \<open>
  The order in which MongoDB sorts the values of a field: values of different types
  compare by type (missing and null, then numbers, strings, object identities, dates),
  values of one type by their own order.
\<close>

fun bson_key :: "pyval option \<Rightarrow> nat \<times> int \<times> string" where
  "bson_key None = (1, 0, [])"
| "bson_key (Some VNone) = (1, 0, [])"
| "bson_key (Some (VInt i)) = (2, i, [])"
| "bson_key (Some (VStr s)) = (3, 0, s)"
| "bson_key (Some (VObjectId n)) = (7, int n, [])"
| "bson_key (Some (VDatetime t)) = (9, t, [])"

definition order_key :: "doc \<Rightarrow> nat \<times> int \<times> string" where
  "order_key d = bson_key (map_of d ''order'')"

section \<open>The service\<close>

text \<open>
  Each handler is a function of the state that returns its result, a value or an
  exception, together with the state it leaves. The result is the dictionary the Python
  function returns, before the web framework serialises it. The clock is an input: the
  handlers that call \<^verbatim>\<open>datetime.utcnow()\<close> once take its value as \<open>now\<close>.
\<close>

text \<open>
  \<open>convert_object_id\<close> on a dictionary; on \<^verbatim>\<open>None\<close> the source returns \<^verbatim>\<open>None\<close>, which
  the callers below write as \<open>map_option\<close>. The parameter \<open>str\<close> is Python's \<^verbatim>\<open>str\<close> on
  the stored identity.
\<close>

definition convert_object_id :: "(pyval \<Rightarrow> string) \<Rightarrow> doc \<Rightarrow> doc" where
  "convert_object_id str d =
     (case map_of d ''_id'' of
        None \<Rightarrow> d
      | Some v \<Rightarrow>
          (if d \<noteq> [] then AList.delete ''_id'' (AList.update ''id'' (VStr (str v)) d)
           else d))"

definition profile_not_found :: error where
  "profile_not_found = HTTPException 404 ''Profile not found''"

definition link_not_found :: error where
  "link_not_found = HTTPException 404 ''Link not found''"

definition invalid_link_id :: error where
  "invalid_link_id = HTTPException 400 ''Invalid link ID''"

definition default_profile :: "(nat \<Rightarrow> datetime) \<Rightarrow> doc" where
  "default_profile utcnow =
     [(''name'', VStr ''ZwQ''),
      (''description'', VStr ''Bio''),
      (''profile_image'',
         VStr ''https://i.pinimg.com/736x/1b/a1/3f/1ba13f9e183fb869f3999b954b25d949.jpg''),
      (''created_at'', VDatetime (utcnow 0)),
      (''updated_at'', VDatetime (utcnow 1))]"

definition default_links :: "(nat \<Rightarrow> datetime) \<Rightarrow> pyval \<Rightarrow> doc list" where
  "default_links utcnow profile_id =
     [[(''profile_id'', profile_id), (''title'', VStr ''Facebook''),
       (''url'', VStr ''https://facebook.com''), (''icon_type'', VStr ''facebook''),
       (''order'', VInt 1), (''created_at'', VDatetime (utcnow 2))],
      [(''profile_id'', profile_id), (''title'', VStr ''Discord''),
       (''url'', VStr ''https://discord.com''), (''icon_type'', VStr ''discord''),
       (''order'', VInt 2), (''created_at'', VDatetime (utcnow 3))],
      [(''profile_id'', profile_id), (''title'', VStr ''Steam''),
       (''url'', VStr ''https://steamcommunity.com''), (''icon_type'', VStr ''steam''),
       (''order'', VInt 3), (''created_at'', VDatetime (utcnow 4))],
      [(''profile_id'', profile_id), (''title'', VStr ''GitHub''),
       (''url'', VStr ''https://github.com''), (''icon_type'', VStr ''github''),
       (''order'', VInt 4), (''created_at'', VDatetime (utcnow 5))],
      [(''profile_id'', profile_id), (''title'', VStr ''YouTube''),
       (''url'', VStr ''https://youtube.com''), (''icon_type'', VStr ''youtube''),
       (''order'', VInt 5), (''created_at'', VDatetime (utcnow 6))]]"

text \<open>
  \<open>init_default_data\<close>; \<open>utcnow k\<close> is what the \<open>k\<close>-th call of
  \<^verbatim>\<open>datetime.utcnow()\<close> of the run returns.
\<close>

definition init_default_data :: "(nat \<Rightarrow> datetime) \<Rightarrow> database \<Rightarrow> database" where
  "init_default_data utcnow db =
     (let profile_count = count_documents (bio_profiles db) in
      if profile_count = 0 then
        (case insert_one (default_profile utcnow) (bio_profiles db, next_oid db) of
           ((profiles', n1), inserted_id) \<Rightarrow>
             (let profile_id = VObjectId inserted_id in
              case insert_many (default_links utcnow profile_id) (social_links db, n1) of
                (links', n2) \<Rightarrow>
                  db\<lparr>bio_profiles := profiles', social_links := links', next_oid := n2\<rparr>))
      else db)"

definition get_profile :: "(pyval \<Rightarrow> string) \<Rightarrow> database \<Rightarrow> error + doc" where
  "get_profile str db =
     (let profile = find_first (bio_profiles db) in
      if \<not> truthy profile then Inl profile_not_found
      else (case profile of
              None \<Rightarrow> Inl profile_not_found
            | Some p \<Rightarrow> Inr (convert_object_id str p)))"

definition update_profile ::
  "(pyval \<Rightarrow> string) \<Rightarrow> datetime \<Rightarrow> BioProfileCreate \<Rightarrow> database
     \<Rightarrow> (error + doc option) \<times> database" where
  "update_profile str now profile_data db =
     (let profile = find_first (bio_profiles db) in
      if \<not> truthy profile then (Inl profile_not_found, db)
      else (case profile of
              None \<Rightarrow> (Inl profile_not_found, db)
            | Some p \<Rightarrow>
                (let update_data =
                       AList.update ''updated_at'' (VDatetime now)
                         (BioProfileCreate_dict profile_data)
                 in case map_of p ''_id'' of
                      None \<Rightarrow> (Inl (KeyError ''_id''), db)
                    | Some pid \<Rightarrow>
                        (let db' = db\<lparr>bio_profiles :=
                                       update_one pid update_data (bio_profiles db)\<rparr>;
                             updated_profile = find_one pid (bio_profiles db')
                         in (Inr (map_option (convert_object_id str) updated_profile),
                             db')))))"

definition get_links :: "(pyval \<Rightarrow> string) \<Rightarrow> database \<Rightarrow> doc list" where
  "get_links str db =
     (let links = take 100 (sort_key order_key (social_links db))
      in map (convert_object_id str) links)"

text \<open>
  \<open>create_link\<close>: the driver encodes the new document when \<^verbatim>\<open>insert_one\<close> is called,
  so an \<^verbatim>\<open>order\<close> outside the 64-bit range ends the call there, with nothing stored.
\<close>

definition create_link ::
  "(pyval \<Rightarrow> string) \<Rightarrow> datetime \<Rightarrow> SocialLinkCreate \<Rightarrow> database
     \<Rightarrow> (error + doc option) \<times> database" where
  "create_link str now link_data db =
     (let profile = find_first (bio_profiles db) in
      if \<not> truthy profile then (Inl profile_not_found, db)
      else (case profile of
              None \<Rightarrow> (Inl profile_not_found, db)
            | Some p \<Rightarrow>
                (case map_of p ''_id'' of
                   None \<Rightarrow> (Inl (KeyError ''_id''), db)
                 | Some pid \<Rightarrow>
                     (let new_link =
                            AList.update ''created_at'' (VDatetime now)
                              (AList.update ''profile_id'' pid
                                 (SocialLinkCreate_dict link_data))
                      in if \<not> bson_encodable new_link then (Inl OverflowError, db)
                         else
                           (case insert_one new_link (social_links db, next_oid db) of
                              ((links', n'), inserted_id) \<Rightarrow>
                                (let db' = db\<lparr>social_links := links', next_oid := n'\<rparr>;
                                     created_link =
                                       find_one (VObjectId inserted_id) (social_links db')
                                 in (Inr (map_option (convert_object_id str) created_link),
                                     db')))))))"

text \<open>
  The comprehension \<^verbatim>\<open>{k: v for k, v in d.items() if v is not None}\<close> of
  \<^verbatim>\<open>update_link\<close>.
\<close>

definition non_null_items :: "doc \<Rightarrow> doc" where
  "non_null_items d = filter (\<lambda>(k, v). v \<noteq> VNone) d"

text \<open>
  The parameter \<open>ObjectId\<close> is the constructor \<^verbatim>\<open>ObjectId(link_id)\<close> of the driver on
  a string: \<open>None\<close> where it raises. The call of \<^verbatim>\<open>update_one\<close> is made only for a
  non-empty update document, and it is there that the driver encodes the document.
\<close>

definition update_link ::
  "(string \<Rightarrow> oid option) \<Rightarrow> (pyval \<Rightarrow> string) \<Rightarrow> string \<Rightarrow> SocialLinkUpdate \<Rightarrow> database
     \<Rightarrow> (error + doc option) \<times> database" where
  "update_link ObjectId str link_id link_data db =
     (case ObjectId link_id of
        None \<Rightarrow> (Inl invalid_link_id, db)
      | Some n \<Rightarrow>
          (let obj_id = VObjectId n;
               link = find_one obj_id (social_links db)
           in if \<not> truthy link then (Inl link_not_found, db)
              else
                (let update_data = non_null_items (SocialLinkUpdate_dict link_data)
                 in if update_data \<noteq> [] \<and> \<not> bson_encodable update_data
                    then (Inl OverflowError, db)
                    else
                      (let db' = (if update_data \<noteq> []
                                  then db\<lparr>social_links :=
                                            update_one obj_id update_data (social_links db)\<rparr>
                                  else db);
                           updated_link = find_one obj_id (social_links db')
                       in (Inr (map_option (convert_object_id str) updated_link), db')))))"

definition delete_link ::
  "(string \<Rightarrow> oid option) \<Rightarrow> string \<Rightarrow> database \<Rightarrow> (error + doc) \<times> database" where
  "delete_link ObjectId link_id db =
     (case ObjectId link_id of
        None \<Rightarrow> (Inl invalid_link_id, db)
      | Some n \<Rightarrow>
          (case delete_one (VObjectId n) (social_links db) of
             (links', deleted_count) \<Rightarrow>
               (let db' = db\<lparr>social_links := links'\<rparr>
                in if deleted_count = 0 then (Inl link_not_found, db')
                   else (Inr [(''message'', VStr ''Link deleted successfully'')], db'))))"

section \<open>Notions the properties are stated with\<close>

text \<open>The value of a field of a document, \<open>None\<close> when the document has no such key.\<close>

definition field :: "string \<Rightarrow> doc \<Rightarrow> pyval option" where
  "field k d = map_of d k"

text \<open>
  What a response shows of a stored document, as a dictionary: every field of the
  document, with the identity rendered as a string under \<^verbatim>\<open>id\<close> in place of the
  field \<^verbatim>\<open>_id\<close>. It is written from this description of the responses and not from
  \<open>convert_object_id\<close>, which the properties below compare with it.
\<close>

definition shown :: "(pyval \<Rightarrow> string) \<Rightarrow> doc \<Rightarrow> (string \<rightharpoonup> pyval)" where
  "shown str d =
     (case map_of d ''_id'' of
        None \<Rightarrow> map_of d
      | Some v \<Rightarrow> (map_of d)(''id'' \<mapsto> VStr (str v), ''_id'' := None))"

text \<open>The update document \<^verbatim>\<open>update_link\<close> builds from its request body.\<close>

abbreviation update_data_of :: "SocialLinkUpdate \<Rightarrow> doc" where
  "update_data_of link_data \<equiv> non_null_items (SocialLinkUpdate_dict link_data)"

text \<open>Python's \<^verbatim>\<open>str.lower\<close> on ASCII text.\<close>

definition lower_char :: "char \<Rightarrow> char" where
  "lower_char c =
     (if CHR ''A'' \<le> c \<and> c \<le> CHR ''Z'' then char_of (of_char c + (32::nat)) else c)"

definition str_lower :: "string \<Rightarrow> string" where
  "str_lower s = map lower_char s"

text \<open>
  Every document of a MongoDB collection has an \<^verbatim>\<open>_id\<close>, and the identities of the
  stored documents lie below \<open>next_oid\<close>. \<open>store_inv\<close> says so of a state; it holds of
  the empty store and every operation of the service keeps it.
\<close>

definition oid_below :: "oid \<Rightarrow> doc \<Rightarrow> bool" where
  "oid_below n d = (case map_of d ''_id'' of Some (VObjectId k) \<Rightarrow> k < n | _ \<Rightarrow> False)"

definition store_inv :: "database \<Rightarrow> bool" where
  "store_inv db \<longleftrightarrow>
     list_all (oid_below (next_oid db)) (bio_profiles db) \<and>
     list_all (oid_below (next_oid db)) (social_links db)"

subsection \<open>A concrete store\<close>

text \<open>
  One profile and two links, stored in the order they were created, the second link
  with the smaller \<^verbatim>\<open>order\<close>; an identity parser on the identities of this store,
  and a printer that renders an identity as 24 hexadecimal digits.
\<close>

definition demo_profile :: doc where
  "demo_profile =
     [(''_id'', VObjectId 0), (''name'', VStr ''ZwQ''), (''description'', VStr ''Bio''),
      (''profile_image'', VStr ''https://example.org/me.jpg''),
      (''created_at'', VDatetime 10), (''updated_at'', VDatetime 10)]"

definition demo_link1 :: doc where
  "demo_link1 =
     [(''_id'', VObjectId 1), (''profile_id'', VObjectId 0), (''title'', VStr ''GitHub''),
      (''url'', VStr ''https://github.com''), (''icon_type'', VStr ''github''),
      (''order'', VInt 2), (''created_at'', VDatetime 11)]"

definition demo_link2 :: doc where
  "demo_link2 =
     [(''_id'', VObjectId 2), (''profile_id'', VObjectId 0), (''title'', VStr ''Steam''),
      (''url'', VStr ''https://steamcommunity.com''), (''icon_type'', VStr ''steam''),
      (''order'', VInt 1), (''created_at'', VDatetime 12)]"

definition demo_db :: database where
  "demo_db =
     \<lparr>bio_profiles = [demo_profile], social_links = [demo_link1, demo_link2], next_oid = 3\<rparr>"

definition empty_db :: database where
  "empty_db = \<lparr>bio_profiles = [], social_links = [], next_oid = 0\<rparr>"

definition demo_ObjectId :: "string \<Rightarrow> oid option" where
  "demo_ObjectId s =
     (if s = ''000000000000000000000001'' then Some 1
      else if s = ''000000000000000000000002'' then Some 2
      else if s = ''000000000000000000000009'' then Some 9
      else None)"

fun hex_digits :: "nat \<Rightarrow> nat \<Rightarrow> string" where
  "hex_digits 0 n = []"
| "hex_digits (Suc k) n = hex_digits k (n div 16) @ [''0123456789abcdef'' ! (n mod 16)]"

fun demo_str :: "pyval \<Rightarrow> string" where
  "demo_str (VObjectId n) = hex_digits 24 n"
| "demo_str v = []"

text \<open>A request body whose \<^verbatim>\<open>order\<close> is \<open>2 ^ 63\<close>, one more than the store can hold.\<close>

definition big_order_body :: SocialLinkUpdate where
  "big_order_body =
     \<lparr>title_opt = None, url_opt = None, icon_type_opt = None,
      order_opt = Some 9223372036854775808\<rparr>"

definition demo_clock :: "nat \<Rightarrow> datetime" where
  "demo_clock k = 100 + int k"

text \<open>
  A store at the cap of \<^verbatim>\<open>get_links\<close>: the profile above and one hundred links, each
  with \<^verbatim>\<open>order\<close> 0, under the identities 1 to 100.
\<close>

definition filler_link :: "nat \<Rightarrow> doc" where
  "filler_link k =
     [(''_id'', VObjectId (Suc k)), (''profile_id'', VObjectId 0), (''title'', VStr ''Link''),
      (''url'', VStr ''https://example.org''), (''icon_type'', VStr ''link''),
      (''order'', VInt 0), (''created_at'', VDatetime 20)]"

definition full_db :: database where
  "full_db =
     \<lparr>bio_profiles = [demo_profile], social_links = map filler_link [0..<100],
      next_oid = 101\<rparr>"

definition blog_link :: SocialLinkCreate where
  "blog_link =
     \<lparr>title = ''Blog'', url = ''https://example.org/blog'', icon_type = ''blog'', order = 1\<rparr>"

definition blog_created :: doc where
  "blog_created =
     [(''title'', VStr ''Blog''), (''url'', VStr ''https://example.org/blog''),
      (''icon_type'', VStr ''blog''), (''order'', VInt 1), (''profile_id'', VObjectId 0),
      (''created_at'', VDatetime 30), (''id'', VStr ''000000000000000000000065'')]"

section \<open>Lemmas on the collection primitives\<close>

lemma matches_id_nonempty: "matches_id v d \<Longrightarrow> d \<noteq> []"
  by (auto simp: matches_id_def)

lemma find_one_Some_matches: "find_one v ds = Some l \<Longrightarrow> matches_id v l"
  by (auto simp: find_one_def find_Some_iff)

lemma find_one_truthy: "find_one v ds = Some l \<Longrightarrow> truthy (find_one v ds)"
  by (auto simp: truthy_def dest!: find_one_Some_matches matches_id_nonempty)

lemma find_one_None_iff: "find_one v ds = None \<longleftrightarrow> (\<forall>d\<in>set ds. \<not> matches_id v d)"
  by (auto simp: find_one_def find_None_iff)

lemma find_one_split:
  "find_one v ds = Some l \<Longrightarrow>
     \<exists>xs ys. ds = xs @ l # ys \<and> (\<forall>x\<in>set xs. \<not> matches_id v x)"
proof (induction ds)
  case Nil
  then show ?case by (simp add: find_one_def)
next
  case (Cons d ds)
  show ?case
  proof (cases "matches_id v d")
    case True
    with Cons.prems have "d = l" by (simp add: find_one_def)
    then have "d # ds = [] @ l # ds \<and> (\<forall>x\<in>set []. \<not> matches_id v x)" by simp
    then show ?thesis by blast
  next
    case False
    with Cons.prems have "find_one v ds = Some l" by (simp add: find_one_def)
    from Cons.IH [OF this] obtain xs ys
      where "ds = xs @ l # ys" and "\<forall>x\<in>set xs. \<not> matches_id v x" by blast
    with False have "d # ds = (d # xs) @ l # ys \<and> (\<forall>x\<in>set (d # xs). \<not> matches_id v x)"
      by simp
    then show ?thesis by blast
  qed
qed

lemma update_one_split:
  "\<forall>x\<in>set xs. \<not> matches_id v x \<Longrightarrow> matches_id v l \<Longrightarrow>
     update_one v upd (xs @ l # ys) = xs @ dollar_set upd l # ys"
  by (induction xs) auto

lemma find_one_split_eq:
  "\<forall>x\<in>set xs. \<not> matches_id v x \<Longrightarrow> matches_id v l \<Longrightarrow> find_one v (xs @ l # ys) = Some l"
  by (induction xs) (auto simp: find_one_def)

lemma delete_one_split:
  "\<forall>x\<in>set xs. \<not> matches_id v x \<Longrightarrow> matches_id v l \<Longrightarrow>
     delete_one v (xs @ l # ys) = (xs @ ys, 1)"
  by (induction xs) auto

lemma delete_one_none:
  "\<forall>x\<in>set ds. \<not> matches_id v x \<Longrightarrow> delete_one v ds = (ds, 0)"
  by (induction ds) auto

lemma map_of_dollar_set:
  "distinct (map fst upd) \<Longrightarrow>
     map_of (dollar_set upd d) k = (case map_of upd k of None \<Rightarrow> map_of d k | Some v \<Rightarrow> Some v)"
proof (induction upd arbitrary: d)
  case Nil
  show ?case by simp
next
  case (Cons kv upd)
  obtain k' v' where kv: "kv = (k', v')" by (cases kv)
  from Cons.prems kv have d: "distinct (map fst upd)" and nin: "k' \<notin> fst ` set upd"
    by auto
  from nin have none: "map_of upd k' = None" by (simp add: map_of_eq_None_iff)
  show ?case
    unfolding kv using none
    by (simp add: Cons.IH [OF d] AList.update_conv' split: option.splits)
qed

lemma matches_id_dollar_set:
  "distinct (map fst upd) \<Longrightarrow> ''_id'' \<notin> fst ` set upd \<Longrightarrow>
     matches_id v (dollar_set upd d) = matches_id v d"
  by (simp add: matches_id_def map_of_dollar_set map_of_eq_None_iff [THEN iffD2])

subsection \<open>The update document of a partial update\<close>

lemma update_data_keys:
  "distinct (map fst (update_data_of ld))" "''_id'' \<notin> fst ` set (update_data_of ld)"
  by (auto simp: non_null_items_def SocialLinkUpdate_dict_def)

lemma map_of_update_data:
  "map_of (update_data_of ld) k =
     (if k = ''title'' then map_option VStr (title_opt ld)
      else if k = ''url'' then map_option VStr (url_opt ld)
      else if k = ''icon_type'' then map_option VStr (icon_type_opt ld)
      else if k = ''order'' then map_option VInt (order_opt ld)
      else None)"
  by (cases "title_opt ld"; cases "url_opt ld"; cases "icon_type_opt ld"; cases "order_opt ld")
     (simp_all add: non_null_items_def SocialLinkUpdate_dict_def opt_str_def opt_int_def)

lemma update_data_empty:
  "update_data_of \<lparr>title_opt = None, url_opt = None, icon_type_opt = None, order_opt = None\<rparr> = []"
  by (simp add: non_null_items_def SocialLinkUpdate_dict_def opt_str_def opt_int_def)

lemma int64_bound: "\<not> int64 9223372036854775808"
  by (simp add: int64_def)

lemma update_data_encodable:
  "bson_encodable (update_data_of ld) \<longleftrightarrow> (\<forall>i. order_opt ld = Some i \<longrightarrow> int64 i)"
  by (cases "title_opt ld"; cases "url_opt ld"; cases "icon_type_opt ld"; cases "order_opt ld")
     (simp_all add: bson_encodable_def non_null_items_def SocialLinkUpdate_dict_def
        opt_str_def opt_int_def)

lemma update_data_order_nonempty: "order_opt ld = Some i \<Longrightarrow> update_data_of ld \<noteq> []"
  by (simp add: non_null_items_def SocialLinkUpdate_dict_def opt_int_def)

lemma update_link_overflow:
  assumes p: "ObjectId link_id = Some n"
    and f: "find_one (VObjectId n) (social_links db) = Some link"
    and o: "order_opt link_data = Some i" and big: "\<not> int64 i"
  shows "update_link ObjectId str link_id link_data db = (Inl OverflowError, db)"
proof -
  have t: "truthy (find_one (VObjectId n) (social_links db))" by (rule find_one_truthy [OF f])
  have ne: "update_data_of link_data \<noteq> []" by (rule update_data_order_nonempty [OF o])
  have "\<not> bson_encodable (update_data_of link_data)"
    using o big by (simp add: update_data_encodable)
  with p t ne show ?thesis by (simp add: update_link_def Let_def)
qed

lemma update_link_found:
  assumes p: "ObjectId link_id = Some n"
    and f: "find_one (VObjectId n) (social_links db) = Some link"
    and enc: "bson_encodable (update_data_of link_data)"
  shows "\<exists>xs ys. social_links db = xs @ link # ys \<and>
           (\<forall>x\<in>set xs. \<not> matches_id (VObjectId n) x) \<and>
           update_link ObjectId str link_id link_data db
             = (Inr (Some (convert_object_id str (dollar_set (update_data_of link_data) link))),
                db\<lparr>social_links := xs @ dollar_set (update_data_of link_data) link # ys\<rparr>)"
proof -
  let ?v = "VObjectId n" and ?upd = "update_data_of link_data"
  from find_one_split [OF f] obtain xs ys
    where split: "social_links db = xs @ link # ys"
      and before: "\<forall>x\<in>set xs. \<not> matches_id ?v x" by blast
  have m: "matches_id ?v link" by (rule find_one_Some_matches [OF f])
  have m': "matches_id ?v (dollar_set ?upd link)"
    using m by (simp add: matches_id_dollar_set update_data_keys)
  have t: "truthy (find_one ?v (social_links db))" by (rule find_one_truthy [OF f])
  have upd: "update_one ?v ?upd (social_links db) = xs @ dollar_set ?upd link # ys"
    unfolding split by (rule update_one_split [OF before m])
  have again: "find_one ?v (xs @ dollar_set ?upd link # ys) = Some (dollar_set ?upd link)"
    by (rule find_one_split_eq [OF before m'])
  have same: "?upd = [] \<Longrightarrow> db\<lparr>social_links := xs @ dollar_set ?upd link # ys\<rparr> = db"
    using split by simp
  have "update_link ObjectId str link_id link_data db
      = (Inr (Some (convert_object_id str (dollar_set ?upd link))),
         db\<lparr>social_links := xs @ dollar_set ?upd link # ys\<rparr>)"
  proof (cases "?upd = []")
    case True
    with p t f same show ?thesis
      by (simp add: update_link_def Let_def)
  next
    case False
    with p t upd again enc show ?thesis
      by (simp add: update_link_def Let_def)
  qed
  with split before show ?thesis by blast
qed

subsection \<open>Rendering the identity\<close>

lemma field_convert_other:
  "k \<noteq> ''id'' \<Longrightarrow> k \<noteq> ''_id'' \<Longrightarrow> field k (convert_object_id str d) = field k d"
  by (simp add: field_def convert_object_id_def AList.delete_conv' AList.update_conv'
      split: option.splits)

lemma field_id_convert:
  "field ''_id'' d = Some v \<Longrightarrow> field ''id'' (convert_object_id str d) = Some (VStr (str v))"
  by (auto simp: field_def convert_object_id_def AList.delete_conv' AList.update_conv')

lemma map_of_convert: "map_of (convert_object_id str d) = shown str d"
  by (auto simp: convert_object_id_def shown_def AList.delete_conv' AList.update_conv'
      split: option.splits)

lemma field_no_id_convert:
  "field ''_id'' d = Some v \<Longrightarrow> field ''_id'' (convert_object_id str d) = None"
  by (auto simp: field_def convert_object_id_def AList.delete_conv' AList.update_conv')

lemma order_key_convert: "order_key (convert_object_id str d) = order_key d"
  using field_convert_other [of "''order''" str d] by (simp add: order_key_def field_def)

lemma demo_str_values:
  "demo_str (VObjectId 0) = ''000000000000000000000000''"
  "demo_str (VObjectId 1) = ''000000000000000000000001''"
  "demo_str (VObjectId 2) = ''000000000000000000000002''"
  "demo_str (VObjectId 3) = ''000000000000000000000003''"
  by code_simp+

subsection \<open>The update document of a profile replacement\<close>

lemma profile_update_keys:
  "distinct (map fst (AList.update ''updated_at'' (VDatetime now) (BioProfileCreate_dict pd)))"
  "''_id'' \<notin> fst ` set (AList.update ''updated_at'' (VDatetime now) (BioProfileCreate_dict pd))"
  by (simp_all add: BioProfileCreate_dict_def)

lemma map_of_profile_update:
  "map_of (AList.update ''updated_at'' (VDatetime now) (BioProfileCreate_dict pd)) k =
     (if k = ''name'' then Some (VStr (name pd))
      else if k = ''description'' then Some (VStr (description pd))
      else if k = ''profile_image'' then Some (VStr (profile_image pd))
      else if k = ''updated_at'' then Some (VDatetime now)
      else None)"
  by (simp add: BioProfileCreate_dict_def)

lemma update_profile_found:
  assumes s: "bio_profiles db = p # ps" and i: "map_of p ''_id'' = Some pid"
  shows "update_profile str now pd db
       = (let p' = dollar_set (AList.update ''updated_at'' (VDatetime now)
                                 (BioProfileCreate_dict pd)) p
          in (Inr (Some (convert_object_id str p')), db\<lparr>bio_profiles := p' # ps\<rparr>))"
proof -
  let ?upd = "AList.update ''updated_at'' (VDatetime now) (BioProfileCreate_dict pd)"
  have m: "matches_id pid p" using i by (simp add: matches_id_def)
  then have ne: "p \<noteq> []" by (rule matches_id_nonempty)
  have m': "matches_id pid (dollar_set ?upd p)"
    using m by (simp add: matches_id_dollar_set profile_update_keys)
  have u: "update_one pid ?upd (p # ps) = dollar_set ?upd p # ps"
    using m by simp
  have f: "find_one pid (dollar_set ?upd p # ps) = Some (dollar_set ?upd p)"
    using m' by (simp add: find_one_def)
  show ?thesis
    using s i ne u f
    by (simp add: update_profile_def find_first_def truthy_def Let_def)
qed

subsection \<open>Sorting by the order field\<close>

lemma map_key_sort_key: "map f (sort_key f xs) = sort (map f xs)"
proof -
  have "mset (map f (sort_key f xs)) = mset (map f xs)" by simp
  moreover have "sorted (map f (sort_key f xs))" by simp
  ultimately show ?thesis by (rule properties_for_sort [symmetric])
qed

lemma sort_cong_mset: "mset xs = mset ys \<Longrightarrow> sort xs = sort ys"
proof -
  assume "mset xs = mset ys"
  then have "mset (sort ys) = mset xs" by simp
  moreover have "sorted (sort ys)" by simp
  ultimately show ?thesis by (rule properties_for_sort)
qed

lemma keys_get_links:
  "map order_key (get_links str db) = take 100 (sort (map order_key (social_links db)))"
proof -
  have "map order_key (get_links str db)
      = map order_key (take 100 (sort_key order_key (social_links db)))"
    by (simp add: get_links_def order_key_convert)
  also have "\<dots> = take 100 (map order_key (sort_key order_key (social_links db)))"
    by (simp add: take_map)
  finally show ?thesis by (simp only: map_key_sort_key)
qed

lemma order_key_int:
  "field ''order'' x = Some (VInt i) \<Longrightarrow> field ''order'' y = Some (VInt j) \<Longrightarrow>
     order_key x \<le> order_key y \<longleftrightarrow> i \<le> j"
  by (auto simp: order_key_def field_def less_eq_prod_def)

lemma in_take_sort_key:
  fixes f :: "'a \<Rightarrow> 'k::linorder"
  assumes room: "length (filter (\<lambda>y. f y \<le> f x) xs) < n"
  shows "x \<in> set (take n (sort_key f (xs @ [x])))"
proof (rule ccontr)
  let ?S = "sort_key f (xs @ [x])"
  let ?P = "\<lambda>y. f y \<le> f x"
  assume out: "x \<notin> set (take n ?S)"
  have "x \<in> set (take n ?S @ drop n ?S)" by simp
  with out have xd: "x \<in> set (drop n ?S)" by (simp only: set_append Un_iff) simp
  have "sorted (map f (take n ?S @ drop n ?S))" by simp
  then have "\<forall>a\<in>set (take n ?S). \<forall>b\<in>set (drop n ?S). f a \<le> f b"
    unfolding map_append sorted_append by simp
  with xd have le: "\<forall>a\<in>set (take n ?S). ?P a" by blast
  from xd have "drop n ?S \<noteq> []" by auto
  then have len: "length (take n ?S) = n" by simp
  from xd obtain M where M: "mset (drop n ?S) = add_mset x M"
    by (metis multi_member_split set_mset_mset)
  have "mset (take n ?S) + mset (drop n ?S) = add_mset x (mset xs)"
    by (simp only: mset_append [symmetric] append_take_drop_id) simp
  with M have "mset (take n ?S) + M = mset xs" by simp
  then have sub: "mset (take n ?S) \<subseteq># mset xs"
    by (metis mset_subset_eq_add_left)
  have all: "filter_mset ?P (mset (take n ?S)) = mset (take n ?S)"
    using le by (simp add: filter_mset_eq_conv)
  have "n = size (filter_mset ?P (mset (take n ?S)))"
    using len by (simp only: all size_mset)
  also have "\<dots> \<le> size (filter_mset ?P (mset xs))"
    by (rule size_mset_mono [OF multiset_filter_mono [OF sub]])
  also have "\<dots> = length (filter ?P xs)"
    by (simp only: mset_filter [symmetric] size_mset)
  finally show False using room by simp
qed

subsection \<open>Identities below the counter\<close>

lemma oid_below_field:
  "oid_below n d \<Longrightarrow> \<exists>k. map_of d ''_id'' = Some (VObjectId k) \<and> k < n"
  by (auto simp: oid_below_def split: option.splits pyval.splits)

lemma oid_below_no_match: "oid_below n d \<Longrightarrow> \<not> matches_id (VObjectId n) d"
  by (auto simp: matches_id_def dest: oid_below_field)

lemma oid_below_mono: "oid_below n d \<Longrightarrow> n \<le> m \<Longrightarrow> oid_below m d"
  by (auto simp: oid_below_def split: option.splits pyval.splits)

lemma new_link_dict:
  "AList.update ''created_at'' c (AList.update ''profile_id'' pid (SocialLinkCreate_dict ld))
     = [(''title'', VStr (title ld)), (''url'', VStr (url ld)),
        (''icon_type'', VStr (icon_type ld)), (''order'', VInt (order ld)),
        (''profile_id'', pid), (''created_at'', c)]"
  by (simp add: SocialLinkCreate_dict_def)

lemma new_link_encodable:
  "bson_encodable
     (AList.update ''created_at'' (VDatetime t) (AList.update ''profile_id'' (VObjectId k)
        (SocialLinkCreate_dict ld)))
   \<longleftrightarrow> int64 (order ld)"
  by (simp add: new_link_dict bson_encodable_def)

lemma create_link_overflow:
  assumes inv: "store_inv db" and prof: "bio_profiles db \<noteq> []"
    and big: "\<not> int64 (order ld)"
  shows "create_link str now ld db = (Inl OverflowError, db)"
proof -
  from prof obtain p ps where s: "bio_profiles db = p # ps" by (cases "bio_profiles db") auto
  with inv have "oid_below (next_oid db) p" by (simp add: store_inv_def)
  then obtain k where i: "map_of p ''_id'' = Some (VObjectId k)"
    by (auto dest: oid_below_field)
  then have ne: "p \<noteq> []" by auto
  show ?thesis
    using s i ne big
    by (simp add: create_link_def find_first_def truthy_def new_link_encodable Let_def)
qed

lemma create_link_found:
  assumes inv: "store_inv db" and prof: "bio_profiles db = p # ps"
    and fits: "int64 (order ld)"
  shows "\<exists>pid. field ''_id'' p = Some pid \<and>
           create_link str now ld db
             = (let stored = [(''_id'', VObjectId (next_oid db)),
                              (''title'', VStr (title ld)), (''url'', VStr (url ld)),
                              (''icon_type'', VStr (icon_type ld)), (''order'', VInt (order ld)),
                              (''profile_id'', pid), (''created_at'', VDatetime now)]
                in (Inr (Some (convert_object_id str stored)),
                    db\<lparr>social_links := social_links db @ [stored],
                       next_oid := Suc (next_oid db)\<rparr>))"
proof -
  from inv prof have "oid_below (next_oid db) p" by (simp add: store_inv_def)
  then obtain k where i: "map_of p ''_id'' = Some (VObjectId k)"
    by (auto dest: oid_below_field)
  then have ne: "p \<noteq> []" by auto
  let ?stored = "[(''_id'', VObjectId (next_oid db)),
                              (''title'', VStr (title ld)), (''url'', VStr (url ld)),
                              (''icon_type'', VStr (icon_type ld)), (''order'', VInt (order ld)),
                              (''profile_id'', VObjectId k), (''created_at'', VDatetime now)]"
  from inv have "\<forall>x\<in>set (social_links db). \<not> matches_id (VObjectId (next_oid db)) x"
    by (auto simp: store_inv_def list_all_iff dest: oid_below_no_match)
  moreover have "matches_id (VObjectId (next_oid db)) ?stored"
    by (simp add: matches_id_def)
  ultimately have f: "find_one (VObjectId (next_oid db)) (social_links db @ ?stored # [])
                    = Some ?stored"
    by (rule find_one_split_eq)
  have "create_link str now ld db
      = (Inr (Some (convert_object_id str ?stored)),
         db\<lparr>social_links := social_links db @ [?stored], next_oid := Suc (next_oid db)\<rparr>)"
    using prof i ne f fits new_link_encodable [of now k ld]
    by (simp add: create_link_def find_first_def truthy_def insert_one_def new_link_dict Let_def)
  with i show ?thesis by (simp add: field_def Let_def)
qed

lemma oid_below_dollar_set:
  "distinct (map fst upd) \<Longrightarrow> ''_id'' \<notin> fst ` set upd \<Longrightarrow>
     oid_below n (dollar_set upd d) = oid_below n d"
  by (simp add: oid_below_def map_of_dollar_set map_of_eq_None_iff [THEN iffD2])

lemma list_all_update_one:
  "distinct (map fst upd) \<Longrightarrow> ''_id'' \<notin> fst ` set upd \<Longrightarrow>
     list_all (oid_below n) (update_one v upd ds) = list_all (oid_below n) ds"
  by (induction ds) (simp_all add: oid_below_dollar_set)

lemma list_all_delete_one:
  "list_all P ds \<Longrightarrow> list_all P (fst (delete_one v ds))"
  by (induction ds) (auto split: prod.splits)

lemma list_all_oid_below_mono:
  "list_all (oid_below n) ds \<Longrightarrow> n \<le> m \<Longrightarrow> list_all (oid_below m) ds"
  by (auto simp: list_all_iff intro: oid_below_mono)

lemma list_all_insert_many:
  "list_all (oid_below n) coll \<Longrightarrow>
     list_all (oid_below (snd (insert_many ds (coll, n)))) (fst (insert_many ds (coll, n)))
     \<and> n \<le> snd (insert_many ds (coll, n))"
proof (induction ds arbitrary: coll n)
  case Nil
  then show ?case by simp
next
  case (Cons d ds)
  let ?coll = "coll @ [(''_id'', VObjectId n) # d]"
  have step: "fst (insert_one d (coll, n)) = (?coll, Suc n)"
    by (simp add: insert_one_def)
  have "list_all (oid_below (Suc n)) ?coll"
    using list_all_oid_below_mono [OF Cons.prems, of "Suc n"] by (simp add: oid_below_def)
  from Cons.IH [OF this] show ?case
    by (simp add: step)
qed

lemma store_inv_empty: "store_inv empty_db"
  by (simp add: store_inv_def empty_db_def)

lemma store_inv_init: "store_inv db \<Longrightarrow> store_inv (init_default_data utcnow db)"
proof (cases "bio_profiles db = []")
  case False
  assume "store_inv db"
  with False show ?thesis by (simp add: init_default_data_def count_documents_def)
next
  case True
  assume inv: "store_inv db"
  let ?n = "next_oid db"
  let ?r = "insert_many (default_links utcnow (VObjectId ?n)) (social_links db, Suc ?n)"
  have run: "init_default_data utcnow db
           = db\<lparr>bio_profiles := [(''_id'', VObjectId ?n) # default_profile utcnow],
                social_links := fst ?r, next_oid := snd ?r\<rparr>"
    using True
    by (simp add: init_default_data_def count_documents_def insert_one_def Let_def
        split: prod.splits)
  from inv have "list_all (oid_below (Suc ?n)) (social_links db)"
    by (auto simp: store_inv_def intro: list_all_oid_below_mono)
  from list_all_insert_many [OF this]
  have l: "list_all (oid_below (snd ?r)) (fst ?r)" and m: "Suc ?n \<le> snd ?r"
    by blast+
  from m have "oid_below (snd ?r) ((''_id'', VObjectId ?n) # default_profile utcnow)"
    by (simp add: oid_below_def)
  with l show ?thesis by (simp add: run store_inv_def)
qed

lemma store_inv_update_profile:
  "store_inv db \<Longrightarrow> store_inv (snd (update_profile str now pd db))"
  by (auto simp: update_profile_def store_inv_def Let_def list_all_update_one
      profile_update_keys split: option.splits)

lemma store_inv_update_link:
  "store_inv db \<Longrightarrow> store_inv (snd (update_link ObjectId str link_id ld db))"
  by (auto simp: update_link_def store_inv_def Let_def list_all_update_one
      update_data_keys split: option.splits if_splits)

lemma store_inv_delete_link:
  assumes "store_inv db"
  shows "store_inv (snd (delete_link ObjectId link_id db))"
proof (cases "ObjectId link_id")
  case None
  with assms show ?thesis by (simp add: delete_link_def)
next
  case (Some n)
  obtain links' deleted_count
    where d: "delete_one (VObjectId n) (social_links db) = (links', deleted_count)"
    by (cases "delete_one (VObjectId n) (social_links db)")
  from assms have "list_all (oid_below (next_oid db)) (social_links db)"
    by (simp add: store_inv_def)
  from list_all_delete_one [OF this, of "VObjectId n"] d
  have "list_all (oid_below (next_oid db)) links'" by simp
  with assms Some d show ?thesis
    by (simp add: delete_link_def store_inv_def Let_def)
qed

lemma store_inv_create_link:
  assumes inv: "store_inv db"
  shows "store_inv (snd (create_link str now ld db))"
proof (cases "bio_profiles db")
  case Nil
  with inv show ?thesis by (simp add: create_link_def find_first_def truthy_def)
next
  case (Cons p ps)
  show ?thesis
  proof (cases "int64 (order ld)")
    case False
    from Cons have "bio_profiles db \<noteq> []" by simp
    from create_link_overflow [OF inv this False, of str now] inv show ?thesis by simp
  next
    case True
    from create_link_found [OF inv Cons True, of str now] obtain pid
      where "snd (create_link str now ld db)
               = db\<lparr>social_links := social_links db
                        @ [[(''_id'', VObjectId (next_oid db)),
                            (''title'', VStr (title ld)), (''url'', VStr (url ld)),
                            (''icon_type'', VStr (icon_type ld)), (''order'', VInt (order ld)),
                            (''profile_id'', pid), (''created_at'', VDatetime now)]],
                      next_oid := Suc (next_oid db)\<rparr>"
      by (auto simp: Let_def)
    moreover from inv
    have "list_all (oid_below (Suc (next_oid db))) (bio_profiles db)"
      and "list_all (oid_below (Suc (next_oid db))) (social_links db)"
      by (auto simp: store_inv_def intro: list_all_oid_below_mono)
    ultimately show ?thesis by (simp add: store_inv_def oid_below_def)
  qed
qed

subsection \<open>The store at the cap\<close>

lemma full_db_inv: "store_inv full_db"
  by (simp add: store_inv_def full_db_def list_all_iff oid_below_def demo_profile_def
      filler_link_def)

lemma order_key_filler: "order_key (filler_link k) = (2, 0, [])"
  by (simp add: order_key_def filler_link_def)

lemma title_filler: "field ''title'' (convert_object_id str (filler_link k)) = Some (VStr ''Link'')"
  by (simp add: field_convert_other) (simp add: field_def filler_link_def)

lemma hex_101: "hex_digits 24 101 = ''000000000000000000000065''"
  by code_simp

section \<open>Properties of the service\<close>

subsection \<open>Seeding\<close>

text \<open>
  Claim C1. On a store without a profile document, \<open>init_default_data\<close> inserts one
  profile (the fixed default values, under a new identity) and appends five links to the
  links collection: their titles are Facebook, Discord, Steam, GitHub, YouTube, their
  \<^verbatim>\<open>order\<close> values 1 to 5, each \<^verbatim>\<open>icon_type\<close> is the title in lower case, and each
  \<^verbatim>\<open>profile_id\<close> is the identity of the new profile. On a store that holds a profile
  document it changes nothing.
\<close>

theorem init_default_data_seeds:
  "(bio_profiles db = [] \<longrightarrow>
      (\<exists>p ls. init_default_data utcnow db
                 = db\<lparr>bio_profiles := [p], social_links := social_links db @ ls,
                       next_oid := next_oid db + 6\<rparr> \<and>
          p = (''_id'', VObjectId (next_oid db)) # default_profile utcnow \<and>
          length ls = 5 \<and>
          map (field ''title'') ls
            = map (Some \<circ> VStr) [''Facebook'', ''Discord'', ''Steam'', ''GitHub'', ''YouTube''] \<and>
          map (field ''order'') ls = map (Some \<circ> VInt) [1, 2, 3, 4, 5] \<and>
          map (field ''icon_type'') ls
            = map (Some \<circ> VStr \<circ> str_lower)
                [''Facebook'', ''Discord'', ''Steam'', ''GitHub'', ''YouTube''] \<and>
          map (field ''profile_id'') ls = replicate 5 (field ''_id'' p) \<and>
          map (field ''_id'') ls
            = map (\<lambda>k. Some (VObjectId (next_oid db + k))) [1, 2, 3, 4, 5])) \<and>
   (bio_profiles db \<noteq> [] \<longrightarrow> init_default_data utcnow db = db)"
proof (intro conjI impI)
  assume e: "bio_profiles db = []"
  have low: "map str_lower [''Facebook'', ''Discord'', ''Steam'', ''GitHub'', ''YouTube'']
           = [''facebook'', ''discord'', ''steam'', ''github'', ''youtube'']"
    by code_simp
  let ?pid = "VObjectId (next_oid db)"
  let ?ls = "map (\<lambda>(k, d). (''_id'', VObjectId (next_oid db + k)) # d)
               (zip [1, 2, 3, 4, 5] (default_links utcnow ?pid))"
  have run: "init_default_data utcnow db
           = db\<lparr>bio_profiles := [(''_id'', ?pid) # default_profile utcnow],
                social_links := social_links db @ ?ls, next_oid := next_oid db + 6\<rparr>"
    using e
    by (simp add: init_default_data_def count_documents_def insert_one_def default_links_def
          Let_def numeral_eq_Suc)
  have fields: "length ?ls = 5"
    "map (field ''title'') ?ls
       = map (Some \<circ> VStr) [''Facebook'', ''Discord'', ''Steam'', ''GitHub'', ''YouTube'']"
    "map (field ''order'') ?ls = map (Some \<circ> VInt) [1, 2, 3, 4, 5]"
    "map (field ''icon_type'') ?ls
       = map (Some \<circ> VStr) [''facebook'', ''discord'', ''steam'', ''github'', ''youtube'']"
    "map (field ''profile_id'') ?ls = replicate 5 (Some ?pid)"
    "map (field ''_id'') ?ls = map (\<lambda>k. Some (VObjectId (next_oid db + k))) [1, 2, 3, 4, 5]"
    by (simp_all add: default_links_def field_def numeral_eq_Suc)
  have icons: "map (field ''icon_type'') ?ls
       = map (Some \<circ> VStr \<circ> str_lower)
           [''Facebook'', ''Discord'', ''Steam'', ''GitHub'', ''YouTube'']"
    using fields(4) low by simp
  have pid: "field ''_id'' ((''_id'', ?pid) # default_profile utcnow) = Some ?pid"
    by (simp add: field_def)
  show "\<exists>p ls. init_default_data utcnow db
                 = db\<lparr>bio_profiles := [p], social_links := social_links db @ ls,
                       next_oid := next_oid db + 6\<rparr> \<and>
          p = (''_id'', VObjectId (next_oid db)) # default_profile utcnow \<and>
          length ls = 5 \<and>
          map (field ''title'') ls
            = map (Some \<circ> VStr) [''Facebook'', ''Discord'', ''Steam'', ''GitHub'', ''YouTube''] \<and>
          map (field ''order'') ls = map (Some \<circ> VInt) [1, 2, 3, 4, 5] \<and>
          map (field ''icon_type'') ls
            = map (Some \<circ> VStr \<circ> str_lower)
                [''Facebook'', ''Discord'', ''Steam'', ''GitHub'', ''YouTube''] \<and>
          map (field ''profile_id'') ls = replicate 5 (field ''_id'' p) \<and>
          map (field ''_id'') ls
            = map (\<lambda>k. Some (VObjectId (next_oid db + k))) [1, 2, 3, 4, 5]"
    using run fields(1,2,3) icons fields(5)[folded pid] fields(6)
    by (intro exI [of _ "(''_id'', ?pid) # default_profile utcnow"] exI [of _ ?ls] conjI refl)
next
  assume "bio_profiles db \<noteq> []"
  then show "init_default_data utcnow db = db"
    by (simp add: init_default_data_def count_documents_def)
qed

theorem init_default_data_seeds_witness:
  "bio_profiles empty_db = [] \<and>
   length (bio_profiles (init_default_data demo_clock empty_db)) = 1 \<and>
   length (social_links (init_default_data demo_clock empty_db)) = 5 \<and>
   bio_profiles demo_db \<noteq> [] \<and>
   init_default_data demo_clock demo_db = demo_db"
proof -
  have e: "bio_profiles empty_db = []" and ne: "bio_profiles demo_db \<noteq> []"
    by (simp_all add: empty_db_def demo_db_def)
  from init_default_data_seeds [of empty_db demo_clock] e obtain p ls
    where "init_default_data demo_clock empty_db
             = empty_db\<lparr>bio_profiles := [p], social_links := social_links empty_db @ ls,
                        next_oid := next_oid empty_db + 6\<rparr>"
      and "length ls = 5"
    by blast
  then have "length (bio_profiles (init_default_data demo_clock empty_db)) = 1"
    and "length (social_links (init_default_data demo_clock empty_db)) = 5"
    by (simp_all add: empty_db_def)
  moreover from init_default_data_seeds [of demo_db demo_clock] ne
  have "init_default_data demo_clock demo_db = demo_db" by blast
  ultimately show ?thesis using e ne by blast
qed

text \<open>
  Claim C2. Seeding is idempotent: a second run of \<open>init_default_data\<close>, at whatever
  times, leaves the state the first run produced; and after two runs the profiles are
  those of the start and at most one more.
\<close>

theorem init_default_data_idempotent:
  "init_default_data u2 (init_default_data u1 db) = init_default_data u1 db \<and>
   (\<exists>created. bio_profiles (init_default_data u2 (init_default_data u1 db))
                 = bio_profiles db @ created \<and> length created \<le> 1)"
  by (cases "bio_profiles db")
     (simp_all add: init_default_data_def count_documents_def insert_one_def
        split: prod.splits)

subsection \<open>Updating a link\<close>

text \<open>
  Claim C3, as the code has it. When the identity parses, a link with it is stored, and
  the \<^verbatim>\<open>order\<close> of the request, if it gives one, fits a signed 64-bit integer,
  \<open>update_link\<close> replaces that link, and only it, by a document in which each of
  \<^verbatim>\<open>title\<close>, \<^verbatim>\<open>url\<close>, \<^verbatim>\<open>icon_type\<close>, \<^verbatim>\<open>order\<close> has the value of the request where
  the request gives one, and its old value where the request gives none; every other
  field keeps its value, and the rest of the store is as before. The call returns the
  updated document, its identity rendered as a string.
\<close>

theorem update_link_partial:
  assumes "ObjectId link_id = Some n"
    and "find_one (VObjectId n) (social_links db) = Some link"
    and "\<forall>i. order_opt link_data = Some i \<longrightarrow> int64 i"
  shows "\<exists>xs ys link' r.
           social_links db = xs @ link # ys \<and>
           (\<forall>x\<in>set xs. \<not> matches_id (VObjectId n) x) \<and>
           update_link ObjectId str link_id link_data db
             = (Inr (Some r), db\<lparr>social_links := xs @ link' # ys\<rparr>) \<and>
           field ''title'' link'
             = (case title_opt link_data of None \<Rightarrow> field ''title'' link
                | Some t \<Rightarrow> Some (VStr t)) \<and>
           field ''url'' link'
             = (case url_opt link_data of None \<Rightarrow> field ''url'' link
                | Some u \<Rightarrow> Some (VStr u)) \<and>
           field ''icon_type'' link'
             = (case icon_type_opt link_data of None \<Rightarrow> field ''icon_type'' link
                | Some i \<Rightarrow> Some (VStr i)) \<and>
           field ''order'' link'
             = (case order_opt link_data of None \<Rightarrow> field ''order'' link
                | Some i \<Rightarrow> Some (VInt i)) \<and>
           (\<forall>k. k \<notin> {''title'', ''url'', ''icon_type'', ''order''}
                 \<longrightarrow> field k link' = field k link) \<and>
           r = convert_object_id str link' \<and>
           map_of r = shown str link' \<and>
           field ''id'' r = Some (VStr (str (VObjectId n))) \<and>
           field ''_id'' r = None \<and>
           (\<forall>k. k \<noteq> ''id'' \<and> k \<noteq> ''_id'' \<longrightarrow> field k r = field k link')"
proof -
  let ?l = "dollar_set (update_data_of link_data) link"
  let ?r = "convert_object_id str ?l"
  have enc: "bson_encodable (update_data_of link_data)"
    using assms(3) by (simp add: update_data_encodable)
  have fld: "field k ?l
        = (case map_of (update_data_of link_data) k of None \<Rightarrow> field k link | Some v \<Rightarrow> Some v)"
    for k
    unfolding field_def by (rule map_of_dollar_set [OF update_data_keys(1)])
  have 1: "field ''title'' ?l
             = (case title_opt link_data of None \<Rightarrow> field ''title'' link
                | Some t \<Rightarrow> Some (VStr t))"
    by (simp add: fld map_of_update_data split: option.splits)
  have 2: "field ''url'' ?l
             = (case url_opt link_data of None \<Rightarrow> field ''url'' link
                | Some u \<Rightarrow> Some (VStr u))"
    by (simp add: fld map_of_update_data split: option.splits)
  have 3: "field ''icon_type'' ?l
             = (case icon_type_opt link_data of None \<Rightarrow> field ''icon_type'' link
                | Some i \<Rightarrow> Some (VStr i))"
    by (simp add: fld map_of_update_data split: option.splits)
  have 4: "field ''order'' ?l
             = (case order_opt link_data of None \<Rightarrow> field ''order'' link
                | Some i \<Rightarrow> Some (VInt i))"
    by (simp add: fld map_of_update_data split: option.splits)
  have 5: "\<forall>k. k \<notin> {''title'', ''url'', ''icon_type'', ''order''}
                 \<longrightarrow> field k ?l = field k link"
    by (simp add: fld map_of_update_data)
  have "field ''_id'' link = Some (VObjectId n)"
    using find_one_Some_matches [OF assms(2)] by (simp add: matches_id_def field_def)
  with 5 have i: "field ''_id'' ?l = Some (VObjectId n)" by simp
  have 6: "map_of ?r = shown str ?l" by (rule map_of_convert)
  have 7: "field ''id'' ?r = Some (VStr (str (VObjectId n)))"
    using i by (rule field_id_convert)
  have 8: "field ''_id'' ?r = None"
    using i by (rule field_no_id_convert)
  have 9: "\<forall>k. k \<noteq> ''id'' \<and> k \<noteq> ''_id'' \<longrightarrow> field k ?r = field k ?l"
    by (simp add: field_convert_other)
  from update_link_found [of ObjectId link_id n db link link_data str, OF assms(1,2) enc]
  obtain xs ys
    where "social_links db = xs @ link # ys"
      and "\<forall>x\<in>set xs. \<not> matches_id (VObjectId n) x"
      and "update_link ObjectId str link_id link_data db
             = (Inr (Some ?r), db\<lparr>social_links := xs @ ?l # ys\<rparr>)"
    by blast
  with 1 2 3 4 5 6 7 8 9 show ?thesis
    by (intro exI [of _ xs] exI [of _ ys] exI [of _ ?l] exI [of _ ?r] conjI refl)
qed

theorem update_link_partial_witness:
  "demo_ObjectId ''000000000000000000000001'' = Some 1 \<and>
   find_one (VObjectId 1) (social_links demo_db) = Some demo_link1 \<and>
   int64 9 \<and>
   (\<exists>link' r. update_link demo_ObjectId demo_str ''000000000000000000000001''
               \<lparr>title_opt = None, url_opt = None, icon_type_opt = None, order_opt = Some 9\<rparr>
               demo_db
             = (Inr (Some r), demo_db\<lparr>social_links := [link', demo_link2]\<rparr>) \<and>
            field ''order'' link' = Some (VInt 9) \<and>
            field ''title'' link' = field ''title'' demo_link1 \<and>
            field ''url'' link' = field ''url'' demo_link1 \<and>
            field ''icon_type'' link' = field ''icon_type'' demo_link1 \<and>
            field ''order'' r = Some (VInt 9) \<and>
            field ''title'' r = Some (VStr ''GitHub'') \<and>
            field ''id'' r = Some (VStr ''000000000000000000000001''))"
proof -
  let ?body = "\<lparr>title_opt = None, url_opt = None, icon_type_opt = None, order_opt = Some 9\<rparr>"
  have p: "demo_ObjectId ''000000000000000000000001'' = Some 1"
    by (simp add: demo_ObjectId_def)
  have f: "find_one (VObjectId 1) (social_links demo_db) = Some demo_link1"
    by (simp add: find_one_def matches_id_def demo_db_def demo_link1_def)
  have o: "\<forall>i. order_opt ?body = Some i \<longrightarrow> int64 i"
    by (simp add: int64_def)
  from update_link_partial
      [of demo_ObjectId "''000000000000000000000001''" 1 demo_db demo_link1 ?body demo_str,
       OF p f o]
  obtain xs ys link' r
    where s: "social_links demo_db = xs @ demo_link1 # ys"
      and b: "\<forall>x\<in>set xs. \<not> matches_id (VObjectId 1) x"
      and r: "update_link demo_ObjectId demo_str ''000000000000000000000001'' ?body demo_db
             = (Inr (Some r), demo_db\<lparr>social_links := xs @ link' # ys\<rparr>)"
      and f1: "field ''order'' link' = Some (VInt 9)"
      and f2: "field ''title'' link' = field ''title'' demo_link1"
      and f3: "field ''url'' link' = field ''url'' demo_link1"
      and f4: "field ''icon_type'' link' = field ''icon_type'' demo_link1"
      and f5: "field ''id'' r = Some (VStr (demo_str (VObjectId 1)))"
      and f6: "\<forall>k. k \<noteq> ''id'' \<and> k \<noteq> ''_id'' \<longrightarrow> field k r = field k link'"
    by auto
  have "matches_id (VObjectId 1) demo_link1"
    by (simp add: matches_id_def demo_link1_def)
  with s b have xs: "xs = []"
    by (cases xs) (auto simp: demo_db_def)
  with s have ys: "ys = [demo_link2]" by (simp add: demo_db_def)
  have r': "update_link demo_ObjectId demo_str ''000000000000000000000001'' ?body demo_db
             = (Inr (Some r), demo_db\<lparr>social_links := [link', demo_link2]\<rparr>)"
    using r xs ys by simp
  have g1: "field ''order'' r = Some (VInt 9)" using f6 f1 by simp
  have "field ''title'' demo_link1 = Some (VStr ''GitHub'')"
    by (simp add: field_def demo_link1_def)
  with f6 f2 have g2: "field ''title'' r = Some (VStr ''GitHub'')" by simp
  have g3: "field ''id'' r = Some (VStr ''000000000000000000000001'')"
    using f5 by (simp only: demo_str_values)
  have i9: "int64 9" by (simp add: int64_def)
  from p f i9 r' f1 f2 f3 f4 g1 g2 g3 show ?thesis
    by (intro conjI exI [of _ link'] exI [of _ r])
qed

text \<open>
  As the claim is written, for every request body, it fails: an \<^verbatim>\<open>order\<close> of \<open>2 ^ 63\<close> is
  present and not null, the driver cannot encode it, and the call ends with
  \<^verbatim>\<open>OverflowError\<close> and the link as it was.
\<close>

theorem update_link_partial_counterexample:
  "demo_ObjectId ''000000000000000000000001'' = Some 1 \<and>
   find_one (VObjectId 1) (social_links demo_db) = Some demo_link1 \<and>
   order_opt big_order_body = Some 9223372036854775808 \<and>
   update_link demo_ObjectId demo_str ''000000000000000000000001'' big_order_body demo_db
     = (Inl OverflowError, demo_db)"
proof -
  have p: "demo_ObjectId ''000000000000000000000001'' = Some 1"
    by (simp add: demo_ObjectId_def)
  have f: "find_one (VObjectId 1) (social_links demo_db) = Some demo_link1"
    by (simp add: find_one_def matches_id_def demo_db_def demo_link1_def)
  have o: "order_opt big_order_body = Some 9223372036854775808"
    by (simp add: big_order_body_def)
  from update_link_overflow
      [where ObjectId = demo_ObjectId and str = demo_str, OF p f o int64_bound] p f o
  show ?thesis
    by (intro conjI)
qed

text \<open>
  Claim C4. With a request body that gives no field, \<open>update_link\<close> on a stored link
  leaves the state as it is and returns the link as stored: every field of the stored
  link with its value, the identity rendered as a string under \<^verbatim>\<open>id\<close>.
\<close>

theorem update_link_empty_body:
  assumes "ObjectId link_id = Some n"
    and "find_one (VObjectId n) (social_links db) = Some link"
  shows "\<exists>r. update_link ObjectId str link_id
                \<lparr>title_opt = None, url_opt = None, icon_type_opt = None, order_opt = None\<rparr> db
              = (Inr (Some r), db) \<and>
             r = convert_object_id str link \<and>
             map_of r = shown str link \<and>
             (\<forall>k. k \<noteq> ''id'' \<and> k \<noteq> ''_id'' \<longrightarrow> field k r = field k link) \<and>
             field ''id'' r = Some (VStr (str (VObjectId n))) \<and>
             field ''_id'' r = None"
proof -
  let ?body = "\<lparr>title_opt = None, url_opt = None, icon_type_opt = None, order_opt = None\<rparr>"
  let ?r = "convert_object_id str link"
  have enc: "bson_encodable (update_data_of ?body)"
    by (simp add: update_data_encodable)
  from update_link_found [of ObjectId link_id n db link ?body str, OF assms enc]
  have 1: "update_link ObjectId str link_id ?body db = (Inr (Some ?r), db)"
    by (auto simp: update_data_empty)
  have i: "field ''_id'' link = Some (VObjectId n)"
    using find_one_Some_matches [OF assms(2)] by (simp add: matches_id_def field_def)
  have 2: "map_of ?r = shown str link" by (rule map_of_convert)
  have 3: "\<forall>k. k \<noteq> ''id'' \<and> k \<noteq> ''_id'' \<longrightarrow> field k ?r = field k link"
    by (simp add: field_convert_other)
  have 4: "field ''id'' ?r = Some (VStr (str (VObjectId n)))"
    using i by (rule field_id_convert)
  have 5: "field ''_id'' ?r = None"
    using i by (rule field_no_id_convert)
  from 1 2 3 4 5 show ?thesis
    by (intro exI [of _ ?r] conjI refl)
qed

theorem update_link_empty_body_witness:
  "demo_ObjectId ''000000000000000000000002'' = Some 2 \<and>
   find_one (VObjectId 2) (social_links demo_db) = Some demo_link2 \<and>
   (\<exists>r. update_link demo_ObjectId demo_str ''000000000000000000000002''
           \<lparr>title_opt = None, url_opt = None, icon_type_opt = None, order_opt = None\<rparr> demo_db
         = (Inr (Some r), demo_db) \<and>
        field ''title'' r = Some (VStr ''Steam'') \<and>
        field ''url'' r = Some (VStr ''https://steamcommunity.com'') \<and>
        field ''icon_type'' r = Some (VStr ''steam'') \<and>
        field ''order'' r = Some (VInt 1) \<and>
        field ''id'' r = Some (VStr ''000000000000000000000002''))"
proof -
  let ?body = "\<lparr>title_opt = None, url_opt = None, icon_type_opt = None, order_opt = None\<rparr>"
  have p: "demo_ObjectId ''000000000000000000000002'' = Some 2"
    by (simp add: demo_ObjectId_def)
  have f: "find_one (VObjectId 2) (social_links demo_db) = Some demo_link2"
    by (simp add: find_one_def matches_id_def demo_db_def demo_link1_def demo_link2_def)
  from update_link_empty_body
      [of demo_ObjectId "''000000000000000000000002''" 2 demo_db demo_link2 demo_str, OF p f]
  obtain r
    where r: "update_link demo_ObjectId demo_str ''000000000000000000000002'' ?body demo_db
                = (Inr (Some r), demo_db)"
      and fr: "\<forall>k. k \<noteq> ''id'' \<and> k \<noteq> ''_id'' \<longrightarrow> field k r = field k demo_link2"
      and fi: "field ''id'' r = Some (VStr (demo_str (VObjectId 2)))"
    by blast
  have g1: "field ''title'' r = Some (VStr ''Steam'')"
    and g2: "field ''url'' r = Some (VStr ''https://steamcommunity.com'')"
    and g3: "field ''icon_type'' r = Some (VStr ''steam'')"
    and g4: "field ''order'' r = Some (VInt 1)"
    using fr by (simp_all add: field_def demo_link2_def)
  have g5: "field ''id'' r = Some (VStr ''000000000000000000000002'')"
    using fi by (simp only: demo_str_values)
  from p f r g1 g2 g3 g4 g5 show ?thesis
    by (intro conjI exI [of _ r])
qed

subsection \<open>Deleting a link\<close>

text \<open>
  Claim C5. \<open>delete_link\<close> has two failures, which differ: an identity string that
  does not parse gives status 400 and the state is untouched; an identity that parses
  and matches no stored link gives status 404, the state unchanged as well. When a link
  matches, the first such link is removed from the collection, nothing else changes, and
  the call returns a body with a \<^verbatim>\<open>message\<close> string.
\<close>

theorem delete_link_outcomes:
  "(ObjectId link_id = None \<longrightarrow>
      delete_link ObjectId link_id db = (Inl (HTTPException 400 ''Invalid link ID''), db)) \<and>
   (\<forall>n. ObjectId link_id = Some n \<and> find_one (VObjectId n) (social_links db) = None \<longrightarrow>
      delete_link ObjectId link_id db = (Inl (HTTPException 404 ''Link not found''), db)) \<and>
   HTTPException 400 ''Invalid link ID'' \<noteq> HTTPException 404 ''Link not found'' \<and>
   (\<forall>n link. ObjectId link_id = Some n \<and>
        find_one (VObjectId n) (social_links db) = Some link \<longrightarrow>
      (\<exists>xs ys. social_links db = xs @ link # ys \<and>
         (\<forall>x\<in>set xs. \<not> matches_id (VObjectId n) x) \<and>
         delete_link ObjectId link_id db
           = (Inr [(''message'', VStr ''Link deleted successfully'')],
              db\<lparr>social_links := xs @ ys\<rparr>)))"
proof (intro conjI allI impI)
  assume "ObjectId link_id = None"
  then show "delete_link ObjectId link_id db = (Inl (HTTPException 400 ''Invalid link ID''), db)"
    by (simp add: delete_link_def invalid_link_id_def)
next
  fix n
  assume a: "ObjectId link_id = Some n \<and> find_one (VObjectId n) (social_links db) = None"
  then have "\<forall>d\<in>set (social_links db). \<not> matches_id (VObjectId n) d"
    by (simp add: find_one_None_iff)
  then have "delete_one (VObjectId n) (social_links db) = (social_links db, 0)"
    by (rule delete_one_none)
  with a show "delete_link ObjectId link_id db = (Inl (HTTPException 404 ''Link not found''), db)"
    by (simp add: delete_link_def link_not_found_def)
next
  show "HTTPException 400 ''Invalid link ID'' \<noteq> HTTPException 404 ''Link not found''"
    by simp
next
  fix n link
  assume a: "ObjectId link_id = Some n \<and> find_one (VObjectId n) (social_links db) = Some link"
  then have f: "find_one (VObjectId n) (social_links db) = Some link" by simp
  from find_one_split [OF f] obtain xs ys
    where s: "social_links db = xs @ link # ys"
      and b: "\<forall>x\<in>set xs. \<not> matches_id (VObjectId n) x" by blast
  have "delete_one (VObjectId n) (social_links db) = (xs @ ys, 1)"
    unfolding s by (rule delete_one_split [OF b find_one_Some_matches [OF f]])
  with a have "delete_link ObjectId link_id db
           = (Inr [(''message'', VStr ''Link deleted successfully'')],
              db\<lparr>social_links := xs @ ys\<rparr>)"
    by (simp add: delete_link_def)
  with s b show "\<exists>xs ys. social_links db = xs @ link # ys \<and>
         (\<forall>x\<in>set xs. \<not> matches_id (VObjectId n) x) \<and>
         delete_link ObjectId link_id db
           = (Inr [(''message'', VStr ''Link deleted successfully'')],
              db\<lparr>social_links := xs @ ys\<rparr>)"
    by blast
qed

theorem delete_link_outcomes_witness:
  "demo_ObjectId ''not-an-id'' = None \<and>
   delete_link demo_ObjectId ''not-an-id'' demo_db
     = (Inl (HTTPException 400 ''Invalid link ID''), demo_db) \<and>
   demo_ObjectId ''000000000000000000000009'' = Some 9 \<and>
   find_one (VObjectId 9) (social_links demo_db) = None \<and>
   delete_link demo_ObjectId ''000000000000000000000009'' demo_db
     = (Inl (HTTPException 404 ''Link not found''), demo_db) \<and>
   demo_ObjectId ''000000000000000000000001'' = Some 1 \<and>
   find_one (VObjectId 1) (social_links demo_db) = Some demo_link1 \<and>
   delete_link demo_ObjectId ''000000000000000000000001'' demo_db
     = (Inr [(''message'', VStr ''Link deleted successfully'')],
        demo_db\<lparr>social_links := [demo_link2]\<rparr>)"
proof -
  have p0: "demo_ObjectId ''not-an-id'' = None"
    and p9: "demo_ObjectId ''000000000000000000000009'' = Some 9"
    and p1: "demo_ObjectId ''000000000000000000000001'' = Some 1"
    by (simp_all add: demo_ObjectId_def)
  have f9: "find_one (VObjectId 9) (social_links demo_db) = None"
    and f1: "find_one (VObjectId 1) (social_links demo_db) = Some demo_link1"
    by (simp_all add: find_one_def matches_id_def demo_db_def demo_link1_def demo_link2_def)
  have m1: "matches_id (VObjectId 1) demo_link1"
    by (simp add: matches_id_def demo_link1_def)
  from delete_link_outcomes [of demo_ObjectId "''not-an-id''" demo_db] p0
  have r0: "delete_link demo_ObjectId ''not-an-id'' demo_db
              = (Inl (HTTPException 400 ''Invalid link ID''), demo_db)"
    by blast
  from delete_link_outcomes [of demo_ObjectId "''000000000000000000000009''" demo_db] p9 f9
  have r9: "delete_link demo_ObjectId ''000000000000000000000009'' demo_db
              = (Inl (HTTPException 404 ''Link not found''), demo_db)"
    by blast
  from delete_link_outcomes [of demo_ObjectId "''000000000000000000000001''" demo_db] p1 f1
  obtain xs ys where s: "social_links demo_db = xs @ demo_link1 # ys"
    and b: "\<forall>x\<in>set xs. \<not> matches_id (VObjectId 1) x"
    and r: "delete_link demo_ObjectId ''000000000000000000000001'' demo_db
              = (Inr [(''message'', VStr ''Link deleted successfully'')],
                 demo_db\<lparr>social_links := xs @ ys\<rparr>)"
    by blast
  from s b m1 have "xs = []" by (cases xs) (auto simp: demo_db_def)
  with s have "ys = [demo_link2]" by (simp add: demo_db_def)
  with \<open>xs = []\<close> r have r1: "delete_link demo_ObjectId ''000000000000000000000001'' demo_db
     = (Inr [(''message'', VStr ''Link deleted successfully'')],
        demo_db\<lparr>social_links := [demo_link2]\<rparr>)"
    by simp
  from p0 r0 p9 f9 r9 p1 f1 r1 show ?thesis by blast
qed

subsection \<open>Creating a link without a profile\<close>

text \<open>
  Claim C6. Without a profile document \<open>create_link\<close> fails with status 404 and the
  state is unchanged.
\<close>

theorem create_link_no_profile:
  "bio_profiles db = [] \<Longrightarrow>
     create_link str now link_data db = (Inl (HTTPException 404 ''Profile not found''), db)"
  by (simp add: create_link_def find_first_def truthy_def profile_not_found_def)

theorem create_link_no_profile_witness:
  "bio_profiles empty_db = [] \<and>
   create_link demo_str 5
       \<lparr>title = ''Blog'', url = ''https://example.org'', icon_type = ''blog'', order = 6\<rparr>
       empty_db
     = (Inl (HTTPException 404 ''Profile not found''), empty_db)"
  using create_link_no_profile
    [of empty_db demo_str 5
        "\<lparr>title = ''Blog'', url = ''https://example.org'', icon_type = ''blog'', order = 6\<rparr>"]
  by (simp add: empty_db_def)

subsection \<open>Listing the links\<close>

text \<open>
  Claim C7. \<open>get_links\<close> returns the link documents in ascending order of their
  \<^verbatim>\<open>order\<close> field, at most 100 of them: the result is sorted, its length is the
  smaller of 100 and the number of stored links, and it shows, document by document,
  stored links \<open>ls\<close> (every field with its stored value, the identity rendered under
  \<^verbatim>\<open>id\<close>) that are sorted and sort at or before every link left out; with at most
  100 links stored none is left out. The sequence of sort keys returned is the same for
  every insertion order of the same links. On integer values the sort order is the order
  of the integers.
\<close>

theorem get_links_sorted_capped:
  "sorted (map order_key (get_links str db)) \<and>
   length (get_links str db) = min 100 (length (social_links db)) \<and>
   (\<exists>ls rest. get_links str db = map (convert_object_id str) ls \<and>
        map map_of (get_links str db) = map (shown str) ls \<and>
        map (field ''order'') (get_links str db) = map (field ''order'') ls \<and>
        sorted (map order_key ls) \<and>
        mset (ls @ rest) = mset (social_links db) \<and>
        length rest = length (social_links db) - 100 \<and>
        (\<forall>x\<in>set ls. \<forall>y\<in>set rest. order_key x \<le> order_key y)) \<and>
   (\<forall>db'. mset (social_links db') = mset (social_links db) \<longrightarrow>
        map order_key (get_links str db') = map order_key (get_links str db)) \<and>
   (\<forall>x y i j. field ''order'' x = Some (VInt i) \<and> field ''order'' y = Some (VInt j) \<longrightarrow>
        (order_key x \<le> order_key y \<longleftrightarrow> i \<le> j))"
proof (intro conjI allI impI)
  show "sorted (map order_key (get_links str db))"
    unfolding keys_get_links by (rule sorted_wrt_take) simp
next
  show "length (get_links str db) = min 100 (length (social_links db))"
    by (simp add: get_links_def min.commute)
next
  let ?s = "sort_key order_key (social_links db)"
  have 1: "get_links str db = map (convert_object_id str) (take 100 ?s)"
    by (simp add: get_links_def)
  have 2: "map map_of (get_links str db) = map (shown str) (take 100 ?s)"
    unfolding 1 by (simp add: map_of_convert)
  have 3: "map (field ''order'') (get_links str db) = map (field ''order'') (take 100 ?s)"
    unfolding 1 by (simp add: field_convert_other)
  have "sorted (map order_key (take 100 ?s @ drop 100 ?s))" by simp
  then have 4: "sorted (map order_key (take 100 ?s))"
    and 7: "\<forall>x\<in>set (take 100 ?s). \<forall>y\<in>set (drop 100 ?s). order_key x \<le> order_key y"
    unfolding map_append sorted_append by simp_all
  have 5: "mset (take 100 ?s @ drop 100 ?s) = mset (social_links db)"
    by simp
  have 6: "length (drop 100 ?s) = length (social_links db) - 100"
    by simp
  from 1 2 3 4 5 6 7
  show "\<exists>ls rest. get_links str db = map (convert_object_id str) ls \<and>
        map map_of (get_links str db) = map (shown str) ls \<and>
        map (field ''order'') (get_links str db) = map (field ''order'') ls \<and>
        sorted (map order_key ls) \<and>
        mset (ls @ rest) = mset (social_links db) \<and>
        length rest = length (social_links db) - 100 \<and>
        (\<forall>x\<in>set ls. \<forall>y\<in>set rest. order_key x \<le> order_key y)"
    by (intro exI [of _ "take 100 ?s"] exI [of _ "drop 100 ?s"] conjI)
next
  fix db' :: database
  assume "mset (social_links db') = mset (social_links db)"
  then have "mset (map order_key (social_links db')) = mset (map order_key (social_links db))"
    by simp
  then have "sort (map order_key (social_links db')) = sort (map order_key (social_links db))"
    by (rule sort_cong_mset)
  then show "map order_key (get_links str db') = map order_key (get_links str db)"
    by (simp only: keys_get_links)
next
  fix x y i j
  assume "field ''order'' x = Some (VInt i) \<and> field ''order'' y = Some (VInt j)"
  then show "order_key x \<le> order_key y \<longleftrightarrow> i \<le> j"
    by (simp add: order_key_int)
qed

theorem get_links_sorted_capped_witness:
  "map (field ''order'') (get_links demo_str demo_db) = [Some (VInt 1), Some (VInt 2)] \<and>
   map (field ''title'') (get_links demo_str demo_db)
     = [Some (VStr ''Steam''), Some (VStr ''GitHub'')] \<and>
   map (field ''id'') (get_links demo_str demo_db)
     = [Some (VStr ''000000000000000000000002''), Some (VStr ''000000000000000000000001'')] \<and>
   sorted (map order_key (get_links demo_str demo_db)) \<and>
   length (get_links demo_str demo_db) = 2 \<and>
   mset (social_links (demo_db\<lparr>social_links := [demo_link2, demo_link1]\<rparr>))
     = mset (social_links demo_db) \<and>
   map order_key (get_links demo_str (demo_db\<lparr>social_links := [demo_link2, demo_link1]\<rparr>))
     = map order_key (get_links demo_str demo_db) \<and>
   field ''order'' demo_link2 = Some (VInt 1) \<and> field ''order'' demo_link1 = Some (VInt 2) \<and>
   order_key demo_link2 \<le> order_key demo_link1"
proof -
  let ?db' = "demo_db\<lparr>social_links := [demo_link2, demo_link1]\<rparr>"
  note t = get_links_sorted_capped [of demo_str demo_db]
  have o2: "field ''order'' demo_link2 = Some (VInt 1)"
    and o1: "field ''order'' demo_link1 = Some (VInt 2)"
    by (simp_all add: field_def demo_link1_def demo_link2_def)
  have k: "order_key demo_link2 = (2, 1, [])" "order_key demo_link1 = (2, 2, [])"
    by (simp_all add: order_key_def demo_link1_def demo_link2_def)
  have g: "get_links demo_str demo_db
     = [convert_object_id demo_str demo_link2, convert_object_id demo_str demo_link1]"
    by (simp add: get_links_def demo_db_def k less_eq_prod_def)
  have i2: "field ''_id'' demo_link2 = Some (VObjectId 2)"
    and i1: "field ''_id'' demo_link1 = Some (VObjectId 1)"
    by (simp_all add: field_def demo_link1_def demo_link2_def)
  have t2: "field ''title'' demo_link2 = Some (VStr ''Steam'')"
    and t1: "field ''title'' demo_link1 = Some (VStr ''GitHub'')"
    by (simp_all add: field_def demo_link1_def demo_link2_def)
  have g1: "map (field ''order'') (get_links demo_str demo_db) = [Some (VInt 1), Some (VInt 2)]"
    unfolding g by (simp add: field_convert_other o1 o2)
  have g2: "map (field ''title'') (get_links demo_str demo_db)
     = [Some (VStr ''Steam''), Some (VStr ''GitHub'')]"
    unfolding g by (simp add: field_convert_other t1 t2)
  have g3: "map (field ''id'') (get_links demo_str demo_db)
     = [Some (VStr ''000000000000000000000002''), Some (VStr ''000000000000000000000001'')]"
    unfolding g
    by (simp only: list.map field_id_convert [OF i2] field_id_convert [OF i1] demo_str_values)
  have m: "mset (social_links ?db') = mset (social_links demo_db)"
    by (simp add: demo_db_def)
  from t have s: "sorted (map order_key (get_links demo_str demo_db))" by blast
  from t have "length (get_links demo_str demo_db) = min 100 (length (social_links demo_db))"
    by blast
  then have l: "length (get_links demo_str demo_db) = 2" by (simp add: demo_db_def)
  from t m have p: "map order_key (get_links demo_str ?db')
     = map order_key (get_links demo_str demo_db)"
    by blast
  from t o2 o1 have "order_key demo_link2 \<le> order_key demo_link1 \<longleftrightarrow> (1::int) \<le> 2"
    by blast
  then have c: "order_key demo_link2 \<le> order_key demo_link1" by simp
  from g1 g2 g3 s l m p o2 o1 c show ?thesis by (intro conjI)
qed

subsection \<open>Replacing the profile\<close>

text \<open>
  Claim C8. Without a profile document \<open>update_profile\<close> fails with status 404. With
  one, it writes the three given values into \<^verbatim>\<open>name\<close>, \<^verbatim>\<open>description\<close> and
  \<^verbatim>\<open>profile_image\<close> of the first profile document and the current time into
  \<^verbatim>\<open>updated_at\<close>; every other field of it, and the rest of the store, stay as they
  were. The call returns the updated document: it shows the three given values, the
  current time as \<^verbatim>\<open>updated_at\<close>, every other field as stored, and the identity
  rendered as a string under \<^verbatim>\<open>id\<close>.
\<close>

theorem update_profile_replaces:
  "(bio_profiles db = [] \<longrightarrow>
      update_profile str now pd db = (Inl (HTTPException 404 ''Profile not found''), db)) \<and>
   (\<forall>p ps pid. bio_profiles db = p # ps \<and> field ''_id'' p = Some pid \<longrightarrow>
      (\<exists>p' r. update_profile str now pd db
               = (Inr (Some r), db\<lparr>bio_profiles := p' # ps\<rparr>) \<and>
            field ''name'' p' = Some (VStr (name pd)) \<and>
            field ''description'' p' = Some (VStr (description pd)) \<and>
            field ''profile_image'' p' = Some (VStr (profile_image pd)) \<and>
            field ''updated_at'' p' = Some (VDatetime now) \<and>
            (\<forall>k. k \<notin> {''name'', ''description'', ''profile_image'', ''updated_at''}
                  \<longrightarrow> field k p' = field k p) \<and>
            r = convert_object_id str p' \<and>
            map_of r = shown str p' \<and>
            field ''name'' r = Some (VStr (name pd)) \<and>
            field ''description'' r = Some (VStr (description pd)) \<and>
            field ''profile_image'' r = Some (VStr (profile_image pd)) \<and>
            field ''updated_at'' r = Some (VDatetime now) \<and>
            field ''id'' r = Some (VStr (str pid)) \<and>
            field ''_id'' r = None \<and>
            (\<forall>k. k \<notin> {''name'', ''description'', ''profile_image'', ''updated_at'',
                       ''id'', ''_id''}
                  \<longrightarrow> field k r = field k p)))"
proof (intro conjI allI impI)
  assume "bio_profiles db = []"
  then show "update_profile str now pd db = (Inl (HTTPException 404 ''Profile not found''), db)"
    by (simp add: update_profile_def find_first_def truthy_def profile_not_found_def)
next
  fix p ps pid
  assume a: "bio_profiles db = p # ps \<and> field ''_id'' p = Some pid"
  let ?upd = "AList.update ''updated_at'' (VDatetime now) (BioProfileCreate_dict pd)"
  let ?p = "dollar_set ?upd p"
  let ?r = "convert_object_id str ?p"
  from a have s: "bio_profiles db = p # ps" and i: "map_of p ''_id'' = Some pid"
    by (simp_all add: field_def)
  have r: "update_profile str now pd db = (Inr (Some ?r), db\<lparr>bio_profiles := ?p # ps\<rparr>)"
    using update_profile_found [OF s i, of str now pd] by (simp add: Let_def)
  have fld: "field k ?p = (case map_of ?upd k of None \<Rightarrow> field k p | Some v \<Rightarrow> Some v)" for k
    unfolding field_def by (rule map_of_dollar_set [OF profile_update_keys(1)])
  have 1: "field ''name'' ?p = Some (VStr (name pd))"
    and 2: "field ''description'' ?p = Some (VStr (description pd))"
    and 3: "field ''profile_image'' ?p = Some (VStr (profile_image pd))"
    and 4: "field ''updated_at'' ?p = Some (VDatetime now)"
    and 5: "\<forall>k. k \<notin> {''name'', ''description'', ''profile_image'', ''updated_at''}
                  \<longrightarrow> field k ?p = field k p"
    by (simp_all add: fld map_of_profile_update)
  from a 5 have pi: "field ''_id'' ?p = Some pid" by simp
  have 6: "map_of ?r = shown str ?p" by (rule map_of_convert)
  have 7: "field ''name'' ?r = Some (VStr (name pd))"
    and 8: "field ''description'' ?r = Some (VStr (description pd))"
    and 9: "field ''profile_image'' ?r = Some (VStr (profile_image pd))"
    and 10: "field ''updated_at'' ?r = Some (VDatetime now)"
    by (simp_all add: field_convert_other 1 2 3 4)
  have 11: "field ''id'' ?r = Some (VStr (str pid))"
    using pi by (rule field_id_convert)
  have 12: "field ''_id'' ?r = None"
    using pi by (rule field_no_id_convert)
  have 13: "\<forall>k. k \<notin> {''name'', ''description'', ''profile_image'', ''updated_at'',
                       ''id'', ''_id''}
                  \<longrightarrow> field k ?r = field k p"
    using 5 by (simp add: field_convert_other)
  from r 1 2 3 4 5 6 7 8 9 10 11 12 13
  show "\<exists>p' r. update_profile str now pd db
               = (Inr (Some r), db\<lparr>bio_profiles := p' # ps\<rparr>) \<and>
            field ''name'' p' = Some (VStr (name pd)) \<and>
            field ''description'' p' = Some (VStr (description pd)) \<and>
            field ''profile_image'' p' = Some (VStr (profile_image pd)) \<and>
            field ''updated_at'' p' = Some (VDatetime now) \<and>
            (\<forall>k. k \<notin> {''name'', ''description'', ''profile_image'', ''updated_at''}
                  \<longrightarrow> field k p' = field k p) \<and>
            r = convert_object_id str p' \<and>
            map_of r = shown str p' \<and>
            field ''name'' r = Some (VStr (name pd)) \<and>
            field ''description'' r = Some (VStr (description pd)) \<and>
            field ''profile_image'' r = Some (VStr (profile_image pd)) \<and>
            field ''updated_at'' r = Some (VDatetime now) \<and>
            field ''id'' r = Some (VStr (str pid)) \<and>
            field ''_id'' r = None \<and>
            (\<forall>k. k \<notin> {''name'', ''description'', ''profile_image'', ''updated_at'',
                       ''id'', ''_id''}
                  \<longrightarrow> field k r = field k p)"
    by (intro exI [of _ ?p] exI [of _ ?r] conjI refl)
qed

theorem update_profile_replaces_witness:
  "bio_profiles empty_db = [] \<and>
   update_profile demo_str 50
       \<lparr>name = ''Q'', description = ''Hello'', profile_image = ''https://example.org/q.png''\<rparr>
       empty_db
     = (Inl (HTTPException 404 ''Profile not found''), empty_db) \<and>
   bio_profiles demo_db = demo_profile # [] \<and>
   field ''_id'' demo_profile = Some (VObjectId 0) \<and>
   (\<exists>p' r. update_profile demo_str 50
            \<lparr>name = ''Q'', description = ''Hello'',
               profile_image = ''https://example.org/q.png''\<rparr>
            demo_db
          = (Inr (Some r), demo_db\<lparr>bio_profiles := [p']\<rparr>) \<and>
        field ''name'' p' = Some (VStr ''Q'') \<and>
        field ''description'' p' = Some (VStr ''Hello'') \<and>
        field ''profile_image'' p' = Some (VStr ''https://example.org/q.png'') \<and>
        field ''updated_at'' p' = Some (VDatetime 50) \<and>
        field ''created_at'' p' = Some (VDatetime 10) \<and>
        field ''name'' r = Some (VStr ''Q'') \<and>
        field ''description'' r = Some (VStr ''Hello'') \<and>
        field ''profile_image'' r = Some (VStr ''https://example.org/q.png'') \<and>
        field ''updated_at'' r = Some (VDatetime 50) \<and>
        field ''created_at'' r = Some (VDatetime 10) \<and>
        field ''id'' r = Some (VStr ''000000000000000000000000''))"
proof -
  let ?pd = "\<lparr>name = ''Q'', description = ''Hello'',
               profile_image = ''https://example.org/q.png''\<rparr>"
  have e: "bio_profiles empty_db = []" by (simp add: empty_db_def)
  have s: "bio_profiles demo_db = demo_profile # []" by (simp add: demo_db_def)
  have i: "field ''_id'' demo_profile = Some (VObjectId 0)"
    by (simp add: field_def demo_profile_def)
  have c: "field ''created_at'' demo_profile = Some (VDatetime 10)"
    by (simp add: field_def demo_profile_def)
  from update_profile_replaces [of empty_db demo_str 50 ?pd] e
  have r0: "update_profile demo_str 50 ?pd empty_db
              = (Inl (HTTPException 404 ''Profile not found''), empty_db)"
    by blast
  note t = update_profile_replaces [of demo_db demo_str 50 ?pd, THEN conjunct2, rule_format,
      of demo_profile "[]" "VObjectId 0", OF conjI [OF s i]]
  from t obtain p' r where r: "update_profile demo_str 50 ?pd demo_db
          = (Inr (Some r), demo_db\<lparr>bio_profiles := [p']\<rparr>)"
    and f1: "field ''name'' p' = Some (VStr (name ?pd))"
    and f2: "field ''description'' p' = Some (VStr (description ?pd))"
    and f3: "field ''profile_image'' p' = Some (VStr (profile_image ?pd))"
    and f4: "field ''updated_at'' p' = Some (VDatetime 50)"
    and f5: "\<forall>k. k \<notin> {''name'', ''description'', ''profile_image'', ''updated_at''}
                  \<longrightarrow> field k p' = field k demo_profile"
    and h1: "field ''name'' r = Some (VStr (name ?pd))"
    and h2: "field ''description'' r = Some (VStr (description ?pd))"
    and h3: "field ''profile_image'' r = Some (VStr (profile_image ?pd))"
    and h4: "field ''updated_at'' r = Some (VDatetime 50)"
    and h5: "field ''id'' r = Some (VStr (demo_str (VObjectId 0)))"
    and h6: "\<forall>k. k \<notin> {''name'', ''description'', ''profile_image'', ''updated_at'',
                       ''id'', ''_id''}
                  \<longrightarrow> field k r = field k demo_profile"
    by (elim exE conjE) (rule that, assumption+)
  from f5 c have f6: "field ''created_at'' p' = Some (VDatetime 10)" by simp
  from h6 c have k6: "field ''created_at'' r = Some (VDatetime 10)" by simp
  have g1: "field ''name'' p' = Some (VStr ''Q'')" using f1 by simp
  have g2: "field ''description'' p' = Some (VStr ''Hello'')" using f2 by simp
  have g3: "field ''profile_image'' p' = Some (VStr ''https://example.org/q.png'')"
    using f3 by simp
  have k1: "field ''name'' r = Some (VStr ''Q'')" using h1 by simp
  have k2: "field ''description'' r = Some (VStr ''Hello'')" using h2 by simp
  have k3: "field ''profile_image'' r = Some (VStr ''https://example.org/q.png'')"
    using h3 by simp
  have k5: "field ''id'' r = Some (VStr ''000000000000000000000000'')"
    using h5 by (simp only: demo_str_values)
  from e r0 s i r g1 g2 g3 f4 f6 k1 k2 k3 h4 k6 k5 show ?thesis
    by (intro conjI exI [of _ p'] exI [of _ r])
qed

subsection \<open>Creating a link and listing it\<close>

text \<open>
  Claim C9, as the code has it. In a store that holds a profile, and in which fewer than
  100 stored links sort at or before the \<^verbatim>\<open>order\<close> of the new link, whenever
  \<open>create_link\<close> succeeds it has appended one document to the links, and \<open>get_links\<close>
  on the resulting state returns the created document: its \<^verbatim>\<open>title\<close>, \<^verbatim>\<open>url\<close>,
  \<^verbatim>\<open>icon_type\<close> and \<^verbatim>\<open>order\<close> are the inputs, and its identity is that of no
  document stored before. The call succeeds when the \<^verbatim>\<open>order\<close> fits a signed 64-bit
  integer; otherwise it ends with \<^verbatim>\<open>OverflowError\<close> and the state unchanged.
\<close>

theorem create_link_round_trip:
  assumes inv: "store_inv db" and prof: "bio_profiles db \<noteq> []"
    and room: "length (filter (\<lambda>d. order_key d \<le> (2, order link_data, []))
                         (social_links db)) < 100"
  shows "(int64 (order link_data) \<longrightarrow>
            (\<exists>r db'. create_link str now link_data db = (Inr r, db'))) \<and>
         (\<not> int64 (order link_data) \<longrightarrow>
            create_link str now link_data db = (Inl OverflowError, db)) \<and>
         (\<forall>r db'. create_link str now link_data db = (Inr r, db') \<longrightarrow>
            (\<exists>stored created.
               r = Some created \<and>
               social_links db' = social_links db @ [stored] \<and>
               bio_profiles db' = bio_profiles db \<and>
               created = convert_object_id str stored \<and>
               map_of created = shown str stored \<and>
               created \<in> set (get_links str db') \<and>
               field ''title'' created = Some (VStr (title link_data)) \<and>
               field ''url'' created = Some (VStr (url link_data)) \<and>
               field ''icon_type'' created = Some (VStr (icon_type link_data)) \<and>
               field ''order'' created = Some (VInt (order link_data)) \<and>
               field ''id'' created = Some (VStr (str (VObjectId (next_oid db)))) \<and>
               field ''_id'' stored = Some (VObjectId (next_oid db)) \<and>
               (\<forall>d\<in>set (bio_profiles db) \<union> set (social_links db).
                  field ''_id'' d \<noteq> Some (VObjectId (next_oid db))) \<and>
               store_inv db'))"
proof (cases "int64 (order link_data)")
  case False
  from create_link_overflow [OF inv prof False, of str now]
  have "create_link str now link_data db = (Inl OverflowError, db)" .
  with False show ?thesis by simp
next
  case True
  from prof obtain p ps where s: "bio_profiles db = p # ps" by (cases "bio_profiles db") auto
  from create_link_found [OF inv s True, of str now] obtain pid
    where pid: "field ''_id'' p = Some pid"
      and run: "create_link str now link_data db
             = (let stored = [(''_id'', VObjectId (next_oid db)),
                              (''title'', VStr (title link_data)), (''url'', VStr (url link_data)),
                              (''icon_type'', VStr (icon_type link_data)),
                              (''order'', VInt (order link_data)),
                              (''profile_id'', pid), (''created_at'', VDatetime now)]
                in (Inr (Some (convert_object_id str stored)),
                    db\<lparr>social_links := social_links db @ [stored],
                       next_oid := Suc (next_oid db)\<rparr>))"
    by blast
  let ?stored = "[(''_id'', VObjectId (next_oid db)),
                  (''title'', VStr (title link_data)), (''url'', VStr (url link_data)),
                  (''icon_type'', VStr (icon_type link_data)),
                  (''order'', VInt (order link_data)),
                  (''profile_id'', pid), (''created_at'', VDatetime now)]"
  let ?created = "convert_object_id str ?stored"
  let ?db = "db\<lparr>social_links := social_links db @ [?stored], next_oid := Suc (next_oid db)\<rparr>"
  have 1: "create_link str now link_data db = (Inr (Some ?created), ?db)"
    using run by (simp add: Let_def)
  have 2: "social_links ?db = social_links db @ [?stored]"
    and 3: "bio_profiles ?db = bio_profiles db"
    by simp_all
  have 4: "map_of ?created = shown str ?stored" by (rule map_of_convert)
  have key: "order_key ?stored = (2, order link_data, [])"
    by (simp add: order_key_def)
  have "?stored \<in> set (take 100 (sort_key order_key (social_links db @ [?stored])))"
    by (rule in_take_sort_key) (simp only: key room)
  then have 5: "?created \<in> set (get_links str ?db)"
    by (simp add: get_links_def)
  have st: "field ''title'' ?stored = Some (VStr (title link_data))"
    "field ''url'' ?stored = Some (VStr (url link_data))"
    "field ''icon_type'' ?stored = Some (VStr (icon_type link_data))"
    "field ''order'' ?stored = Some (VInt (order link_data))"
    by (simp_all add: field_def)
  have 6: "field ''title'' ?created = Some (VStr (title link_data))"
    and 7: "field ''url'' ?created = Some (VStr (url link_data))"
    and 8: "field ''icon_type'' ?created = Some (VStr (icon_type link_data))"
    and 9: "field ''order'' ?created = Some (VInt (order link_data))"
    by (simp_all add: field_convert_other st)
  have 11: "field ''_id'' ?stored = Some (VObjectId (next_oid db))"
    by (simp add: field_def)
  have 10: "field ''id'' ?created = Some (VStr (str (VObjectId (next_oid db))))"
    using 11 by (rule field_id_convert)
  have 12: "\<forall>d\<in>set (bio_profiles db) \<union> set (social_links db).
              field ''_id'' d \<noteq> Some (VObjectId (next_oid db))"
    using inv oid_below_no_match [of "next_oid db"]
    by (auto simp: store_inv_def list_all_iff matches_id_def field_def)
  have new: "oid_below (Suc (next_oid db)) ?stored"
    by (simp add: oid_below_def)
  have 13: "store_inv ?db"
    using inv new oid_below_mono [of "next_oid db" _ "Suc (next_oid db)"]
    by (auto simp: store_inv_def list_all_iff)
  have body: "\<exists>stored created.
               Some ?created = Some created \<and>
               social_links ?db = social_links db @ [stored] \<and>
               bio_profiles ?db = bio_profiles db \<and>
               created = convert_object_id str stored \<and>
               map_of created = shown str stored \<and>
               created \<in> set (get_links str ?db) \<and>
               field ''title'' created = Some (VStr (title link_data)) \<and>
               field ''url'' created = Some (VStr (url link_data)) \<and>
               field ''icon_type'' created = Some (VStr (icon_type link_data)) \<and>
               field ''order'' created = Some (VInt (order link_data)) \<and>
               field ''id'' created = Some (VStr (str (VObjectId (next_oid db)))) \<and>
               field ''_id'' stored = Some (VObjectId (next_oid db)) \<and>
               (\<forall>d\<in>set (bio_profiles db) \<union> set (social_links db).
                  field ''_id'' d \<noteq> Some (VObjectId (next_oid db))) \<and>
               store_inv ?db"
    using 2 3 4 5 6 7 8 9 10 11 12 13
    by (intro exI [of _ ?stored] exI [of _ ?created] conjI refl)
  show ?thesis
  proof (intro conjI impI allI)
    show "\<exists>r db'. create_link str now link_data db = (Inr r, db')"
      using 1 by blast
  next
    assume "\<not> int64 (order link_data)"
    with True show "create_link str now link_data db = (Inl OverflowError, db)" by simp
  next
    fix r db'
    assume "create_link str now link_data db = (Inr r, db')"
    with 1 have r: "r = Some ?created" and d: "db' = ?db" by simp_all
    show "\<exists>stored created.
               r = Some created \<and>
               social_links db' = social_links db @ [stored] \<and>
               bio_profiles db' = bio_profiles db \<and>
               created = convert_object_id str stored \<and>
               map_of created = shown str stored \<and>
               created \<in> set (get_links str db') \<and>
               field ''title'' created = Some (VStr (title link_data)) \<and>
               field ''url'' created = Some (VStr (url link_data)) \<and>
               field ''icon_type'' created = Some (VStr (icon_type link_data)) \<and>
               field ''order'' created = Some (VInt (order link_data)) \<and>
               field ''id'' created = Some (VStr (str (VObjectId (next_oid db)))) \<and>
               field ''_id'' stored = Some (VObjectId (next_oid db)) \<and>
               (\<forall>d\<in>set (bio_profiles db) \<union> set (social_links db).
                  field ''_id'' d \<noteq> Some (VObjectId (next_oid db))) \<and>
               store_inv db'"
      unfolding r d by (rule body)
  qed
qed

theorem create_link_round_trip_witness:
  "store_inv demo_db \<and> bio_profiles demo_db \<noteq> [] \<and>
   length (filter (\<lambda>d. order_key d \<le> (2, order blog_link, [])) (social_links demo_db)) < 100 \<and>
   int64 (order blog_link) \<and>
   (\<exists>created db'.
      create_link demo_str 30 blog_link demo_db = (Inr (Some created), db') \<and>
      created \<in> set (get_links demo_str db') \<and>
      field ''title'' created = Some (VStr ''Blog'') \<and>
      field ''url'' created = Some (VStr ''https://example.org/blog'') \<and>
      field ''icon_type'' created = Some (VStr ''blog'') \<and>
      field ''order'' created = Some (VInt 1) \<and>
      field ''id'' created = Some (VStr ''000000000000000000000003''))"
proof -
  have inv: "store_inv demo_db"
    by (simp add: store_inv_def oid_below_def demo_db_def demo_profile_def demo_link1_def
        demo_link2_def)
  have prof: "bio_profiles demo_db \<noteq> []" by (simp add: demo_db_def)
  have "length (filter (\<lambda>d. order_key d \<le> (2, order blog_link, [])) (social_links demo_db))
          \<le> length (social_links demo_db)"
    by (rule length_filter_le)
  then have room: "length (filter (\<lambda>d. order_key d \<le> (2, order blog_link, []))
                     (social_links demo_db)) < 100"
    by (simp add: demo_db_def)
  have fits: "int64 (order blog_link)" by (simp add: int64_def blog_link_def)
  have n: "next_oid demo_db = 3" by (simp add: demo_db_def)
  note t = create_link_round_trip [OF inv prof room, of demo_str 30]
  from t fits obtain r db' where ok: "create_link demo_str 30 blog_link demo_db = (Inr r, db')"
    by blast
  note u = t [THEN conjunct2, THEN conjunct2, rule_format, OF ok]
  from u obtain stored created
    where r: "r = Some created"
      and m: "created \<in> set (get_links demo_str db')"
      and f1: "field ''title'' created = Some (VStr (title blog_link))"
      and f2: "field ''url'' created = Some (VStr (url blog_link))"
      and f3: "field ''icon_type'' created = Some (VStr (icon_type blog_link))"
      and f4: "field ''order'' created = Some (VInt (order blog_link))"
      and f5: "field ''id'' created = Some (VStr (demo_str (VObjectId (next_oid demo_db))))"
    by (elim exE conjE) (rule that, assumption+)
  have ok': "create_link demo_str 30 blog_link demo_db = (Inr (Some created), db')"
    using ok r by simp
  have g1: "field ''title'' created = Some (VStr ''Blog'')"
    and g2: "field ''url'' created = Some (VStr ''https://example.org/blog'')"
    and g3: "field ''icon_type'' created = Some (VStr ''blog'')"
    and g4: "field ''order'' created = Some (VInt 1)"
    using f1 f2 f3 f4 by (simp_all add: blog_link_def)
  have g5: "field ''id'' created = Some (VStr ''000000000000000000000003'')"
    using f5 by (simp only: n demo_str_values)
  from inv prof room fits ok' m g1 g2 g3 g4 g5 show ?thesis
    by (intro conjI exI [of _ created] exI [of _ db'])
qed

text \<open>
  Without the bound the round trip fails: in the store of one hundred links of
  \<^verbatim>\<open>order\<close> 0, a link created with \<^verbatim>\<open>order\<close> 1 is stored and returned by
  \<open>create_link\<close>, and \<open>get_links\<close>, which stops at 100 documents, does not return it.
\<close>

theorem create_link_round_trip_counterexample:
  "store_inv full_db \<and> bio_profiles full_db \<noteq> [] \<and>
   fst (create_link demo_str 30 blog_link full_db) = Inr (Some blog_created) \<and>
   blog_created \<notin> set (get_links demo_str (snd (create_link demo_str 30 blog_link full_db))) \<and>
   Some (VStr ''Blog'')
     \<notin> set (map (field ''title'')
               (get_links demo_str (snd (create_link demo_str 30 blog_link full_db))))"
proof -
  let ?stored = "[(''_id'', VObjectId 101), (''title'', VStr ''Blog''),
                  (''url'', VStr ''https://example.org/blog''), (''icon_type'', VStr ''blog''),
                  (''order'', VInt 1), (''profile_id'', VObjectId 0),
                  (''created_at'', VDatetime 30)]"
  let ?db = "full_db\<lparr>social_links := social_links full_db @ [?stored], next_oid := 102\<rparr>"
  have prof: "bio_profiles full_db = demo_profile # []" by (simp add: full_db_def)
  have n: "next_oid full_db = 101" by (simp add: full_db_def)
  have fits: "int64 (order blog_link)" by (simp add: int64_def blog_link_def)
  from create_link_found [OF full_db_inv prof fits, of demo_str 30]
  have run: "create_link demo_str 30 blog_link full_db
               = (Inr (Some (convert_object_id demo_str ?stored)), ?db)"
    by (simp add: n blog_link_def field_def demo_profile_def Let_def)
  have conv: "convert_object_id demo_str ?stored = blog_created"
    by (simp add: convert_object_id_def blog_created_def hex_101 AList.delete_eq)
  have "map order_key (map filler_link [0..<100]) = replicate 100 (2, 0, [])"
    by (simp add: comp_def order_key_filler map_replicate_const del: upt_Suc)
  moreover have "order_key ?stored = (2, 1, [])"
    by (simp add: order_key_def)
  ultimately have "map order_key (social_links ?db) = replicate 100 (2, 0, []) @ [(2, 1, [])]"
    by (simp add: full_db_def del: upt_Suc)
  moreover have "sorted (replicate 100 (2::nat, 0::int, []::string) @ [(2, 1, [])])"
    by (simp add: sorted_append less_eq_prod_def)
  ultimately have "sorted (map order_key (social_links ?db))"
    by (simp only:)
  then have "sort_key order_key (social_links ?db) = social_links ?db"
    by (rule sort_key_id_if_sorted)
  then have links: "get_links demo_str ?db
                  = map (convert_object_id demo_str) (map filler_link [0..<100])"
    by (simp add: get_links_def full_db_def del: upt_Suc)
  have titles: "map (field ''title'') (get_links demo_str ?db)
              = map (\<lambda>k. Some (VStr ''Link'')) [0..<100]"
    unfolding links by (simp add: comp_def title_filler del: upt_Suc)
  have no_title: "Some (VStr ''Blog'') \<notin> set (map (field ''title'') (get_links demo_str ?db))"
    unfolding titles by (auto simp del: upt_Suc)
  have t: "field ''title'' blog_created = Some (VStr ''Blog'')"
    by (simp add: field_def blog_created_def)
  have out: "blog_created \<notin> set (get_links demo_str ?db)"
  proof
    assume "blog_created \<in> set (get_links demo_str ?db)"
    then have "field ''title'' blog_created
                 \<in> set (map (field ''title'') (get_links demo_str ?db))"
      by (simp only: set_map) (rule imageI)
    with no_title show False by (simp only: t)
  qed
  have r1: "fst (create_link demo_str 30 blog_link full_db) = Inr (Some blog_created)"
    by (simp only: run conv fst_conv)
  have r2: "snd (create_link demo_str 30 blog_link full_db) = ?db"
    by (simp only: run snd_conv)
  have ne: "bio_profiles full_db \<noteq> []"
    by (simp only: prof) simp
  from full_db_inv ne r1 out no_title show ?thesis
    unfolding r2 by (intro conjI)
qed

text \<open>
  Claim C10. \<open>update_profile\<close> keeps the identity and the creation time of the profile:
  the stored \<^verbatim>\<open>_id\<close> and \<^verbatim>\<open>created_at\<close> after the call are those before it, only
  the four written fields can differ, and the returned document shows that identity
  (rendered as a string under \<^verbatim>\<open>id\<close>) and that creation time.
\<close>

theorem update_profile_keeps_identity:
  assumes "bio_profiles db = p # ps" and "field ''_id'' p = Some pid"
  shows "\<exists>p' r. update_profile str now pd db = (Inr (Some r), db\<lparr>bio_profiles := p' # ps\<rparr>) \<and>
           field ''_id'' p' = Some pid \<and>
           field ''created_at'' p' = field ''created_at'' p \<and>
           (\<forall>k. k \<notin> {''name'', ''description'', ''profile_image'', ''updated_at''}
                 \<longrightarrow> field k p' = field k p) \<and>
           r = convert_object_id str p' \<and>
           field ''id'' r = Some (VStr (str pid)) \<and>
           field ''created_at'' r = field ''created_at'' p"
proof -
  let ?upd = "AList.update ''updated_at'' (VDatetime now) (BioProfileCreate_dict pd)"
  let ?p = "dollar_set ?upd p"
  from assms have i: "map_of p ''_id'' = Some pid" by (simp add: field_def)
  have r: "update_profile str now pd db
             = (Inr (Some (convert_object_id str ?p)), db\<lparr>bio_profiles := ?p # ps\<rparr>)"
    using update_profile_found [OF assms(1) i, of str now pd] by (simp add: Let_def)
  have fld: "field k ?p = (case map_of ?upd k of None \<Rightarrow> field k p | Some v \<Rightarrow> Some v)" for k
    unfolding field_def by (rule map_of_dollar_set [OF profile_update_keys(1)])
  have frame: "\<forall>k. k \<notin> {''name'', ''description'', ''profile_image'', ''updated_at''}
                 \<longrightarrow> field k ?p = field k p"
    by (simp add: fld map_of_profile_update)
  have 1: "field ''_id'' ?p = Some pid"
    using assms(2) by (simp add: fld map_of_profile_update)
  have 2: "field ''created_at'' ?p = field ''created_at'' p"
    by (simp add: fld map_of_profile_update)
  have 3: "field ''id'' (convert_object_id str ?p) = Some (VStr (str pid))"
    using 1 by (rule field_id_convert)
  have 4: "field ''created_at'' (convert_object_id str ?p) = field ''created_at'' p"
    using 2 by (simp add: field_convert_other)
  from r 1 2 frame 3 4 show ?thesis
    by (intro exI [of _ ?p] exI [of _ "convert_object_id str ?p"] conjI refl)
qed

theorem update_profile_keeps_identity_witness:
  "bio_profiles demo_db = demo_profile # [] \<and>
   field ''_id'' demo_profile = Some (VObjectId 0) \<and>
   (\<exists>p' r. update_profile demo_str 50
              \<lparr>name = ''Q'', description = ''Hello'',
                 profile_image = ''https://example.org/q.png''\<rparr>
              demo_db
            = (Inr (Some r), demo_db\<lparr>bio_profiles := [p']\<rparr>) \<and>
          field ''_id'' p' = Some (VObjectId 0) \<and>
          field ''created_at'' p' = Some (VDatetime 10) \<and>
          field ''id'' r = Some (VStr ''000000000000000000000000'') \<and>
          field ''created_at'' r = Some (VDatetime 10))"
proof -
  let ?pd = "\<lparr>name = ''Q'', description = ''Hello'',
               profile_image = ''https://example.org/q.png''\<rparr>"
  have s: "bio_profiles demo_db = demo_profile # []" by (simp add: demo_db_def)
  have i: "field ''_id'' demo_profile = Some (VObjectId 0)"
    by (simp add: field_def demo_profile_def)
  have c: "field ''created_at'' demo_profile = Some (VDatetime 10)"
    by (simp add: field_def demo_profile_def)
  from update_profile_keeps_identity [OF s i, of demo_str 50 ?pd] obtain p' r
    where r: "update_profile demo_str 50 ?pd demo_db
             = (Inr (Some r), demo_db\<lparr>bio_profiles := [p']\<rparr>)"
      and f1: "field ''_id'' p' = Some (VObjectId 0)"
      and f2: "field ''created_at'' p' = field ''created_at'' demo_profile"
      and f3: "field ''id'' r = Some (VStr (demo_str (VObjectId 0)))"
      and f4: "field ''created_at'' r = field ''created_at'' demo_profile"
    by blast
  have g2: "field ''created_at'' p' = Some (VDatetime 10)" using f2 c by simp
  have g3: "field ''id'' r = Some (VStr ''000000000000000000000000'')"
    using f3 by (simp only: demo_str_values)
  have g4: "field ''created_at'' r = Some (VDatetime 10)" using f4 c by simp
  from s i r f1 g2 g3 g4 show ?thesis
    by (intro conjI exI [of _ p'] exI [of _ r])
qed

end
